theory Spec2Isabelle
  imports Complex_Main
begin

section \<open>The fragment shader of \<open>crt-effects.ts\<close>\<close>

text \<open>
  The GLSL program \<open>FRAGMENT_SHADER\<close> is embedded over the real numbers: a \<open>float\<close>
  is a \<open>real\<close>, a \<open>vec2\<close> a pair, and the built-in functions follow their definitions
  in the GLSL ES specification. The one place where the shader text divides is made
  partial: \<open>fdiv\<close> has no value for a zero divisor, so that a shader run that divides by
  zero has no result. The rounding of \<open>mediump\<close> floats is not modelled.

  \<open>main\<close> returns the values of all its local variables together with \<open>gl_FragColor\<close>,
  under the names they have in the shader.
\<close>

type_synonym vec2 = "real \<times> real"
type_synonym vec3 = "real \<times> real \<times> real"
type_synonym vec4 = "real \<times> real \<times> real \<times> real"

subsection \<open>Built-in functions\<close>

definition clamp :: "real \<Rightarrow> real \<Rightarrow> real \<Rightarrow> real" where
  "clamp x minVal maxVal = min (max x minVal) maxVal"

definition fract :: "real \<Rightarrow> real" where
  "fract x = x - of_int \<lfloor>x\<rfloor>"

definition gl_floor :: "real \<Rightarrow> real" where
  "gl_floor x = of_int \<lfloor>x\<rfloor>"

definition dot :: "vec2 \<Rightarrow> vec2 \<Rightarrow> real" where
  "dot p q = fst p * fst q + snd p * snd q"

definition length_vec2 :: "vec2 \<Rightarrow> real" where
  "length_vec2 p = sqrt (fst p * fst p + snd p * snd p)"

definition smoothstep :: "real \<Rightarrow> real \<Rightarrow> real \<Rightarrow> real" where
  "smoothstep edge0 edge1 x =
     (let t = clamp ((x - edge0) / (edge1 - edge0)) 0 1 in t * t * (3 - 2 * t))"

definition vec2_scale_sub :: "vec2 \<Rightarrow> real \<Rightarrow> real \<Rightarrow> vec2" where
  \<comment> \<open>\<open>v * a - b\<close> with scalars \<open>a\<close>, \<open>b\<close>: componentwise.\<close>
  "vec2_scale_sub v a b = (fst v * a - b, snd v * a - b)"

definition vec2_mul :: "vec2 \<Rightarrow> vec2 \<Rightarrow> vec2" where
  \<comment> \<open>\<open>v * w\<close> on vectors: componentwise.\<close>
  "vec2_mul v w = (fst v * fst w, snd v * snd w)"

definition fdiv :: "real \<Rightarrow> real \<Rightarrow> real option" where
  \<comment> \<open>The operator \<open>/\<close> of the shader text; no value when the divisor is zero.\<close>
  "fdiv a b = (if b = 0 then None else Some (a / b))"

subsection \<open>\<open>hash\<close> and \<open>main\<close>\<close>

definition hash :: "vec2 \<Rightarrow> real" where
  "hash p = (let h = dot p (127.1, 311.7) in fract (sin h * 43758.5453123))"

record frag_in =
  v_uv :: vec2
  u_time :: real
  u_resolution :: vec2

record frag_out =
  scanlineY :: real
  scanline :: real
  scanDark :: real
  vigCoord :: vec2
  vigDist :: real
  vigDark :: real
  flickerDark :: real
  totalDark :: real
  totalAdd :: vec3
  gl_FragColor :: vec4

definition scanThickness :: real where
  "scanThickness = 1.0"

definition main :: "frag_in \<Rightarrow> frag_out option" where
  "main i =
     (let uv = v_uv i;
          amber = (1.0 :: real, 0.69 :: real, 0.0 :: real) in
      case fdiv (snd uv * snd (u_resolution i)) scanThickness of
        None \<Rightarrow> None
      | Some sY \<Rightarrow>
         (let sl = sin (sY * 3.14159265);
              sD = (1.0 - clamp sl 0.0 1.0) * 0.25;
              vC = vec2_scale_sub uv 2.0 1.0;
              vDist = length_vec2 (vec2_mul vC (0.7, 0.5));
              vD = smoothstep 0.6 1.4 vDist * 0.75;
              fD = (hash (gl_floor (u_time i * 30.0), 0.0) - 0.5) * 0.08;
              tD = clamp (sD + vD + fD) 0.0 1.0;
              tA = (0.0, 0.0, 0.0)
          in Some \<lparr> scanlineY = sY, scanline = sl, scanDark = sD, vigCoord = vC,
                     vigDist = vDist, vigDark = vD, flickerDark = fD, totalDark = tD,
                     totalAdd = tA, gl_FragColor = (fst tA, fst (snd tA), snd (snd tA), tD) \<rparr>))"

section \<open>The overlay set up by \<open>initCRT\<close>\<close>

text \<open>
  \<open>initCRT\<close> works on the page and on what the host answers. The page is a record of
  what the script can change or read later: the elements appended to the body, the size
  of the window, the backing size of the canvas, the state of the GL context, the
  registered resize listeners and the queue of animation-frame callbacks. A closure is
  a constructor holding what it captured. The log \<open>draws\<close> records every \<open>drawArrays\<close>
  call with the uniforms and the viewport it was issued with; \<open>gl.clear\<close>, the attribute
  layout and the uniform locations leave no trace in this state.
\<close>

subsection \<open>Elements and bloom layers\<close>

text \<open>
  A style text is the list of its declarations, in the order of the source; the two
  \<open>backdrop-filter\<close> declarations carry the blur radius in px and the brightness factor.
\<close>

datatype css_value =
    Keyword string
  | Number real
  | Percent real
  | BlurBrightness real real

type_synonym css_text = "(string \<times> css_value) list"

record element =
  tagName :: string
  cssText :: css_text

record bloom_layer =
  blur :: real
  brightness :: real
  opacity :: real

definition bloomLayers :: "bloom_layer list" where
  "bloomLayers =
     [\<lparr>blur = 0.5, brightness = 1.1, opacity = 0.45\<rparr>,
      \<lparr>blur = 1.5, brightness = 1.15, opacity = 0.3\<rparr>,
      \<lparr>blur = 3, brightness = 1.2, opacity = 0.2\<rparr>,
      \<lparr>blur = 6, brightness = 1.25, opacity = 0.14\<rparr>,
      \<lparr>blur = 12, brightness = 1.2, opacity = 0.1\<rparr>,
      \<lparr>blur = 24, brightness = 1.15, opacity = 0.07\<rparr>,
      \<lparr>blur = 48, brightness = 1.1, opacity = 0.04\<rparr>,
      \<lparr>blur = 80, brightness = 1.05, opacity = 0.02\<rparr>]"

definition layer_element :: "bloom_layer \<Rightarrow> element" where
  "layer_element l =
     \<lparr>tagName = ''div'',
      cssText =
        [(''position'', Keyword ''fixed''),
         (''inset'', Number 0),
         (''width'', Percent 100),
         (''height'', Percent 100),
         (''pointer-events'', Keyword ''none''),
         (''z-index'', Number 9998),
         (''backdrop-filter'', BlurBrightness (blur l) (brightness l)),
         (''-webkit-backdrop-filter'', BlurBrightness (blur l) (brightness l)),
         (''mix-blend-mode'', Keyword ''screen''),
         (''opacity'', Number (opacity l))]\<rparr>"

definition canvas_element :: element where
  "canvas_element =
     \<lparr>tagName = ''canvas'',
      cssText =
        [(''position'', Keyword ''fixed''),
         (''inset'', Number 0),
         (''width'', Percent 100),
         (''height'', Percent 100),
         (''pointer-events'', Keyword ''none''),
         (''z-index'', Number 9999)]\<rparr>"

subsection \<open>The page, the GL context and the host\<close>

datatype shader_type = VERTEX_SHADER | FRAGMENT_SHADER

datatype blend_factor = ONE | ONE_MINUS_SRC_ALPHA

datatype listener = Resize_handler "nat \<times> nat" "nat \<times> nat"
  \<comment> \<open>the closure \<open>resize\<close>, with the limits of the context \<open>gl\<close> it captured:
      \<open>MAX_VIEWPORT_DIMS\<close> and the largest drawing buffer\<close>

datatype callback = Render real
  \<comment> \<open>the closure \<open>render\<close>, with the \<open>startTime\<close> it captured\<close>

record draw_call =
  d_time :: real
  d_resolution :: vec2
  d_viewport :: "nat \<times> nat \<times> nat \<times> nat"

record page =
  body :: "element list"
  innerWidth :: nat
  innerHeight :: nat
  canvas_width :: nat
  canvas_height :: nat
  drawingBuffer :: "nat \<times> nat"
  viewport :: "nat \<times> nat \<times> nat \<times> nat"
  shaders :: "shader_type list"
  programs :: nat
  program_in_use :: bool
  blend_enabled :: bool
  blendFunc :: "(blend_factor \<times> blend_factor) option"
  array_buffer :: "real list"
  vertex_attrib_enabled :: bool
  uniform_time :: real
  uniform_resolution :: vec2
  draws :: "draw_call list"
  resize_listeners :: "listener list"
  raf_queue :: "callback list"

text \<open>
  What the host answers when the script asks for a context, a shader object, a compile
  status, a program object or a link status, and the limits of its context:
  \<open>gl.viewport\<close> clamps width and height to \<open>MAX_VIEWPORT_DIMS\<close>, and the drawing buffer
  behind the canvas is no larger than the host allows, whatever \<open>canvas.width\<close> and
  \<open>canvas.height\<close> are set to.
\<close>

record host =
  getContext_ok :: bool
  createShader_vs_ok :: bool
  compile_status_vs :: bool
  createShader_fs_ok :: bool
  compile_status_fs :: bool
  createProgram_ok :: bool
  link_status :: bool
  max_viewport_dims :: "nat \<times> nat"
  max_drawing_buffer :: "nat \<times> nat"

definition createShader_ok :: "host \<Rightarrow> shader_type \<Rightarrow> bool" where
  "createShader_ok h ty =
     (case ty of VERTEX_SHADER \<Rightarrow> createShader_vs_ok h | FRAGMENT_SHADER \<Rightarrow> createShader_fs_ok h)"

definition compile_status :: "host \<Rightarrow> shader_type \<Rightarrow> bool" where
  "compile_status h ty =
     (case ty of VERTEX_SHADER \<Rightarrow> compile_status_vs h | FRAGMENT_SHADER \<Rightarrow> compile_status_fs h)"

text \<open>The page when \<open>DOMContentLoaded\<close> fires: nothing appended, nothing registered.\<close>

definition page0 :: "nat \<Rightarrow> nat \<Rightarrow> page" where
  "page0 w h =
     \<lparr>body = [], innerWidth = w, innerHeight = h, canvas_width = 300, canvas_height = 150,
      drawingBuffer = (300, 150), viewport = (0, 0, 300, 150), shaders = [], programs = 0, program_in_use = False,
      blend_enabled = False, blendFunc = None, array_buffer = [],
      vertex_attrib_enabled = False, uniform_time = 0, uniform_resolution = (0, 0),
      draws = [], resize_listeners = [], raf_queue = []\<rparr>"

subsection \<open>\<open>compileShader\<close>, \<open>linkProgram\<close>, \<open>initCRT\<close>\<close>

definition compileShader :: "host \<Rightarrow> shader_type \<Rightarrow> page \<Rightarrow> shader_type option \<times> page" where
  "compileShader h ty s =
     (if \<not> createShader_ok h ty then (None, s)
      else let s1 = s\<lparr>shaders := shaders s @ [ty]\<rparr> in
        if \<not> compile_status h ty then (None, s1\<lparr>shaders := butlast (shaders s1)\<rparr>)
        else (Some ty, s1))"

definition linkProgram :: "host \<Rightarrow> page \<Rightarrow> nat option \<times> page" where
  "linkProgram h s =
     (if \<not> createProgram_ok h then (None, s)
      else let s1 = s\<lparr>programs := Suc (programs s)\<rparr> in
        if \<not> link_status h then (None, s1\<lparr>programs := programs s1 - 1\<rparr>)
        else (Some (programs s1), s1))"

definition set_canvas_width :: "nat \<times> nat \<Rightarrow> nat \<Rightarrow> page \<Rightarrow> page" where
  \<comment> \<open>\<open>canvas.width = v\<close>: the attribute takes the value, the drawing buffer is capped.\<close>
  "set_canvas_width max_buffer v s =
     s\<lparr>canvas_width := v, drawingBuffer := (min v (fst max_buffer), snd (drawingBuffer s))\<rparr>"

definition set_canvas_height :: "nat \<times> nat \<Rightarrow> nat \<Rightarrow> page \<Rightarrow> page" where
  "set_canvas_height max_buffer v s =
     s\<lparr>canvas_height := v, drawingBuffer := (fst (drawingBuffer s), min v (snd max_buffer))\<rparr>"

definition gl_viewport :: "nat \<times> nat \<Rightarrow> nat \<Rightarrow> nat \<Rightarrow> nat \<Rightarrow> nat \<Rightarrow> page \<Rightarrow> page" where
  \<comment> \<open>\<open>gl.viewport(x, y, width, height)\<close>: width and height are clamped.\<close>
  "gl_viewport max_dims x y width height s =
     s\<lparr>viewport := (x, y, min width (fst max_dims), min height (snd max_dims))\<rparr>"

definition resize :: "nat \<times> nat \<Rightarrow> nat \<times> nat \<Rightarrow> page \<Rightarrow> page" where
  "resize max_dims max_buffer s =
     (let s1 = set_canvas_width max_buffer (innerWidth s) s;
          s2 = set_canvas_height max_buffer (innerHeight s1) s1
      in gl_viewport max_dims 0 0 (canvas_width s2) (canvas_height s2) s2)"

definition render :: "real \<Rightarrow> real \<Rightarrow> page \<Rightarrow> page" where
  \<comment> \<open>\<open>render startTime now\<close>: \<open>now\<close> is what \<open>performance.now()\<close> reads in this frame.\<close>
  "render startTime now s =
     (let elapsed = (now - startTime) / 1000.0;
          s1 = s\<lparr>uniform_time := elapsed\<rparr>;
          s2 = s1\<lparr>uniform_resolution := (real (canvas_width s1), real (canvas_height s1))\<rparr>;
          s3 = s2\<lparr>draws := draws s2 @
                 [\<lparr>d_time = uniform_time s2, d_resolution = uniform_resolution s2,
                   d_viewport = viewport s2\<rparr>]\<rparr>
      in s3\<lparr>raf_queue := raf_queue s3 @ [Render startTime]\<rparr>)"

definition appendChild :: "element \<Rightarrow> page \<Rightarrow> page" where
  "appendChild e s = s\<lparr>body := body s @ [e]\<rparr>"

definition initCRT :: "host \<Rightarrow> real \<Rightarrow> page \<Rightarrow> page" where
  \<comment> \<open>\<open>initCRT h now\<close>: \<open>now\<close> is what \<open>performance.now()\<close> reads for \<open>startTime\<close>.\<close>
  "initCRT h now s =
     (let s1 = foldl (\<lambda>s l. appendChild (layer_element l) s) s bloomLayers;
          s2 = appendChild canvas_element s1
      in if \<not> getContext_ok h then s2
      else let (vs, s3) = compileShader h VERTEX_SHADER s2;
               (fs, s4) = compileShader h FRAGMENT_SHADER s3
      in if vs = None \<or> fs = None then s4
      else let (program, s5) = linkProgram h s4
      in if program = None then s5
      else let vertices = [- 1, - 1, 1, - 1, - 1, 1, 1, 1];
               sa = s5\<lparr>array_buffer := vertices\<rparr>;
               sb = sa\<lparr>vertex_attrib_enabled := True\<rparr>;
               s6 = sb\<lparr>program_in_use := True\<rparr>;
               s7 = s6\<lparr>blend_enabled := True\<rparr>;
               s8 = s7\<lparr>blendFunc := Some (ONE, ONE_MINUS_SRC_ALPHA)\<rparr>;
               s9 = s8\<lparr>resize_listeners := resize_listeners s8 @
                       [Resize_handler (max_viewport_dims h) (max_drawing_buffer h)]\<rparr>;
               s10 = resize (max_viewport_dims h) (max_drawing_buffer h) s9;
               startTime = now
      in s10\<lparr>raf_queue := raf_queue s10 @ [Render startTime]\<rparr>)"

subsection \<open>The event loop\<close>

datatype event =
    Resize nat nat  \<comment> \<open>the window takes these dimensions and \<open>resize\<close> is dispatched\<close>
  | Frame real      \<comment> \<open>an animation frame; the clock reads this value\<close>

fun run_listener :: "page \<Rightarrow> listener \<Rightarrow> page" where
  "run_listener s (Resize_handler max_dims max_buffer) = resize max_dims max_buffer s"

fun run_callback :: "real \<Rightarrow> page \<Rightarrow> callback \<Rightarrow> page" where
  "run_callback now s (Render startTime) = render startTime now s"

fun step :: "event \<Rightarrow> page \<Rightarrow> page" where
  "step (Resize w h) s =
     foldl run_listener (s\<lparr>innerWidth := w, innerHeight := h\<rparr>) (resize_listeners s)"
| "step (Frame now) s =
     foldl (run_callback now) (s\<lparr>raf_queue := []\<rparr>) (raf_queue s)"

definition run :: "event list \<Rightarrow> page \<Rightarrow> page" where
  "run evs s = foldl (\<lambda>s e. step e s) s evs"

definition gl_ok :: "host \<Rightarrow> bool" where
  "gl_ok h \<longleftrightarrow>
     getContext_ok h \<and> createShader_vs_ok h \<and> compile_status_vs h \<and> createShader_fs_ok h
     \<and> compile_status_fs h \<and> createProgram_ok h \<and> link_status h"

text \<open>
  The states in which the overlay runs: the frame callback and the resize handler are the
  ones \<open>initCRT\<close> registered, the canvas has the size of the window, and drawing buffer
  and viewport have that size up to the limits of the context.
\<close>

definition running :: "host \<Rightarrow> real \<Rightarrow> page \<Rightarrow> bool" where
  "running h t0 s \<longleftrightarrow>
     raf_queue s = [Render t0]
     \<and> resize_listeners s = [Resize_handler (max_viewport_dims h) (max_drawing_buffer h)]
     \<and> canvas_width s = innerWidth s \<and> canvas_height s = innerHeight s
     \<and> drawingBuffer s = (min (innerWidth s) (fst (max_drawing_buffer h)),
                           min (innerHeight s) (snd (max_drawing_buffer h)))
     \<and> viewport s = (0, 0, min (innerWidth s) (fst (max_viewport_dims h)),
                            min (innerHeight s) (snd (max_viewport_dims h)))"

text \<open>The clock readings of the animation frames of a run, in order.\<close>

fun frame_times :: "event list \<Rightarrow> real list" where
  "frame_times [] = []"
| "frame_times (Frame now # evs) = now # frame_times evs"
| "frame_times (Resize w h # evs) = frame_times evs"

section \<open>The document tree and \<open>initMenu\<close>\<close>

text \<open>
  The document is a tree of elements; an element is referred to by the path of child
  indices leading to it. \<open>querySelector\<close> returns the first match in document order, for
  the two selectors the script uses: a type selector and a descendant combinator of two
  type selectors. \<open>insertBefore\<close> follows the DOM standard: it raises \<open>NotFoundError\<close>
  unless the reference node is a child of the parent.
\<close>

datatype node =
  Element (tag: string) (ident: string) (classList: "string list") (innerText: string)
          (childNodes: "node list")

type_synonym path = "nat list"

datatype dom_exception = NotFoundError

datatype selector =
    Type_selector string
  | Descendant_selector string string

fun matches :: "selector \<Rightarrow> string list \<Rightarrow> node \<Rightarrow> bool" where
  "matches (Type_selector t) ancestors n = (tag n = t)"
| "matches (Descendant_selector a t) ancestors n = (tag n = t \<and> a \<in> set ancestors)"

fun select_node :: "selector \<Rightarrow> string list \<Rightarrow> node \<Rightarrow> path option"
  and select_nodes :: "selector \<Rightarrow> string list \<Rightarrow> nat \<Rightarrow> node list \<Rightarrow> path option" where
  "select_node sel ancestors (Element t d c x ks) =
     (if matches sel ancestors (Element t d c x ks) then Some []
      else select_nodes sel (t # ancestors) 0 ks)"
| "select_nodes sel ancestors i [] = None"
| "select_nodes sel ancestors i (k # ks) =
     (case select_node sel ancestors k of
        Some p \<Rightarrow> Some (i # p)
      | None \<Rightarrow> select_nodes sel ancestors (Suc i) ks)"

definition querySelector :: "selector \<Rightarrow> node \<Rightarrow> path option" where
  "querySelector sel doc = select_node sel [] doc"

fun subtree :: "node \<Rightarrow> path \<Rightarrow> node option" where
  "subtree n [] = Some n"
| "subtree n (i # p) =
     (if i < length (childNodes n) then subtree (childNodes n ! i) p else None)"

fun update_at :: "path \<Rightarrow> (node \<Rightarrow> node) \<Rightarrow> node \<Rightarrow> node" where
  "update_at [] f n = f n"
| "update_at (i # p) f n =
     (if i < length (childNodes n)
      then Element (tag n) (ident n) (classList n) (innerText n)
             ((childNodes n)[i := update_at p f (childNodes n ! i)])
      else n)"

definition insert_child :: "nat \<Rightarrow> node \<Rightarrow> node \<Rightarrow> node" where
  "insert_child j new n =
     Element (tag n) (ident n) (classList n) (innerText n)
       (take j (childNodes n) @ [new] @ drop j (childNodes n))"

definition insertBefore :: "path \<Rightarrow> node \<Rightarrow> path \<Rightarrow> node \<Rightarrow> dom_exception + node" where
  \<comment> \<open>\<open>parent.insertBefore(new, ref)\<close>: \<open>ref\<close> must be a child of \<open>parent\<close>.\<close>
  "insertBefore parent new ref doc =
     (if ref \<noteq> [] \<and> butlast ref = parent \<and> subtree doc ref \<noteq> None
      then Inr (update_at parent (insert_child (last ref) new) doc)
      else Inl NotFoundError)"

record menu =
  document :: node
  click_listener :: "(path \<times> path) option"
    \<comment> \<open>the closure of the click handler: where \<open>button\<close> and \<open>list\<close> now are\<close>

definition createElement :: "string \<Rightarrow> node" where
  "createElement t = Element t [] [] [] []"

definition set_id :: "string \<Rightarrow> node \<Rightarrow> node" where
  "set_id v n = Element (tag n) v (classList n) (innerText n) (childNodes n)"

definition set_innerText :: "string \<Rightarrow> node \<Rightarrow> node" where
  "set_innerText v n = Element (tag n) (ident n) (classList n) v (childNodes n)"

definition set_classList :: "string list \<Rightarrow> node \<Rightarrow> node" where
  "set_classList v n = Element (tag n) (ident n) v (innerText n) (childNodes n)"

definition toggle :: "string \<Rightarrow> string list \<Rightarrow> string list" where
  "toggle token cl = (if token \<in> set cl then removeAll token cl else cl @ [token])"

definition initMenu :: "node \<Rightarrow> dom_exception + menu" where
  "initMenu doc =
     (let nav = querySelector (Type_selector ''nav'') doc;
          list = querySelector (Descendant_selector ''nav'' ''ul'') doc
      in case (nav, list) of
           (Some navp, Some listp) \<Rightarrow>
             (let button = createElement ''button'';
                  button = set_id ''menu-toggle'' button;
                  button = set_innerText ''> ABRIR COMANDOS'' button
              in case insertBefore navp button listp doc of
                   Inl e \<Rightarrow> Inl e
                 | Inr doc' \<Rightarrow>
                     Inr \<lparr>document = doc',
                          click_listener = Some (listp, butlast listp @ [Suc (last listp)])\<rparr>)
         | _ \<Rightarrow> Inr \<lparr>document = doc, click_listener = None\<rparr>)"

definition click :: "menu \<Rightarrow> menu" where
  "click m =
     (case click_listener m of
        None \<Rightarrow> m
      | Some (button, list) \<Rightarrow>
          (let d1 = update_at list (\<lambda>n. set_classList (toggle ''open'' (classList n)) n) (document m);
               is_open = (case subtree d1 list of
                            Some l \<Rightarrow> ''open'' \<in> set (classList l) | None \<Rightarrow> False);
               d2 = (if is_open
                     then update_at button (set_innerText ''> CERRAR COMANDOS'') d1
                     else update_at button (set_innerText ''> ABRIR COMANDOS'') d1)
           in m\<lparr>document := d2\<rparr>))"

text \<open>The handler of \<open>DOMContentLoaded\<close>: \<open>initCRT\<close>, then \<open>initMenu\<close>.\<close>

definition onDOMContentLoaded ::
    "host \<Rightarrow> real \<Rightarrow> page \<Rightarrow> node \<Rightarrow> page \<times> (dom_exception + menu)" where
  "onDOMContentLoaded h now s doc = (let s' = initCRT h now s in (s', initMenu doc))"

fun count_id :: "string \<Rightarrow> node \<Rightarrow> nat" where
  "count_id v (Element t d c x ks) = (if d = v then 1 else 0) + sum_list (map (count_id v) ks)"

section \<open>Properties of the shader\<close>

lemma clamp_bounds: "lo \<le> hi \<Longrightarrow> lo \<le> clamp x lo hi \<and> clamp x lo hi \<le> hi"
  by (simp add: clamp_def)

lemma main_Some:
  "main i = Some \<lparr>
      scanlineY = snd (v_uv i) * snd (u_resolution i),
      scanline = sin (snd (v_uv i) * snd (u_resolution i) * 3.14159265),
      scanDark = (1 - clamp (sin (snd (v_uv i) * snd (u_resolution i) * 3.14159265)) 0 1) * 0.25,
      vigCoord = vec2_scale_sub (v_uv i) 2 1,
      vigDist = length_vec2 (vec2_mul (vec2_scale_sub (v_uv i) 2 1) (0.7, 0.5)),
      vigDark = smoothstep 0.6 1.4
                  (length_vec2 (vec2_mul (vec2_scale_sub (v_uv i) 2 1) (0.7, 0.5))) * 0.75,
      flickerDark = (hash (gl_floor (u_time i * 30), 0) - 0.5) * 0.08,
      totalDark = clamp ((1 - clamp (sin (snd (v_uv i) * snd (u_resolution i) * 3.14159265)) 0 1) * 0.25
                    + smoothstep 0.6 1.4
                        (length_vec2 (vec2_mul (vec2_scale_sub (v_uv i) 2 1) (0.7, 0.5))) * 0.75
                    + (hash (gl_floor (u_time i * 30), 0) - 0.5) * 0.08) 0 1,
      totalAdd = (0, 0, 0),
      gl_FragColor = (0, 0, 0,
         clamp ((1 - clamp (sin (snd (v_uv i) * snd (u_resolution i) * 3.14159265)) 0 1) * 0.25
                    + smoothstep 0.6 1.4
                        (length_vec2 (vec2_mul (vec2_scale_sub (v_uv i) 2 1) (0.7, 0.5))) * 0.75
                    + (hash (gl_floor (u_time i * 30), 0) - 0.5) * 0.08) 0 1) \<rparr>"
  by (simp add: main_def fdiv_def scanThickness_def Let_def)

text \<open>
  C1. For every pixel coordinate, elapsed time and resolution the shader has a result.
  Its three darkening terms are the scanline, vignette and flicker expressions of the
  shader evaluated at the coordinate, the time and the resolution; its output
  \<open>gl_FragColor\<close> is the zero RGB vector \<open>totalAdd\<close> followed by the darkness \<open>totalDark\<close>;
  the darkness is \<open>clamp (scanDark + vigDark + flickerDark) 0 1\<close> and lies in the
  interval from 0 to 1 whatever the three terms are. At the centre of a viewport of
  resolution zero at time 0 the three terms are 0.25, 0 and -0.04, and the output is
  \<open>(0, 0, 0, 0.21)\<close>.
\<close>

theorem C1_output_is_zero_rgb_and_clamped_darkness:
  "\<exists>r. main i = Some r
     \<and> scanDark r = (1 - clamp (sin (snd (v_uv i) * snd (u_resolution i) * 3.14159265)) 0 1) * 0.25
     \<and> vigDark r = smoothstep 0.6 1.4
          (sqrt (((fst (v_uv i) * 2 - 1) * 0.7)\<^sup>2 + ((snd (v_uv i) * 2 - 1) * 0.5)\<^sup>2)) * 0.75
     \<and> flickerDark r
          = (fract (sin (of_int \<lfloor>u_time i * 30\<rfloor> * 127.1 + 0 * 311.7) * 43758.5453123) - 0.5) * 0.08
     \<and> gl_FragColor r = (0, 0, 0, totalDark r)
     \<and> totalAdd r = (0, 0, 0)
     \<and> totalDark r = clamp (scanDark r + vigDark r + flickerDark r) 0 1
     \<and> 0 \<le> totalDark r \<and> totalDark r \<le> 1
     \<and> main \<lparr>v_uv = (0.5, 0.5), u_time = 0, u_resolution = (0, 0)\<rparr>
          = Some \<lparr>scanlineY = 0, scanline = 0, scanDark = 0.25, vigCoord = (0, 0), vigDist = 0,
                  vigDark = 0, flickerDark = - 0.04, totalDark = 0.21, totalAdd = (0, 0, 0),
                  gl_FragColor = (0, 0, 0, 0.21)\<rparr>"
proof -
  have v: "length_vec2 (vec2_mul (vec2_scale_sub (v_uv i) 2 1) (0.7, 0.5))
        = sqrt (((fst (v_uv i) * 2 - 1) * 0.7)\<^sup>2 + ((snd (v_uv i) * 2 - 1) * 0.5)\<^sup>2)"
    by (simp add: length_vec2_def vec2_mul_def vec2_scale_sub_def power2_eq_square)
  have f: "hash (gl_floor (u_time i * 30), 0)
        = fract (sin (of_int \<lfloor>u_time i * 30\<rfloor> * 127.1 + 0 * 311.7) * 43758.5453123)"
    by (simp add: hash_def dot_def gl_floor_def Let_def)
  have z: "main \<lparr>v_uv = (0.5, 0.5), u_time = 0, u_resolution = (0, 0)\<rparr>
          = Some \<lparr>scanlineY = 0, scanline = 0, scanDark = 0.25, vigCoord = (0, 0), vigDist = 0,
                  vigDark = 0, flickerDark = - 0.04, totalDark = 0.21, totalAdd = (0, 0, 0),
                  gl_FragColor = (0, 0, 0, 0.21)\<rparr>"
    by (simp add: main_Some clamp_def smoothstep_def length_vec2_def vec2_mul_def
        vec2_scale_sub_def hash_def dot_def gl_floor_def fract_def Let_def)
  show ?thesis
    unfolding z using v f by (simp add: main_Some clamp_def)
qed

subsection \<open>The vignette term\<close>

lemma smoothstep_poly_mono:
  assumes "0 \<le> a" "a \<le> b" "b \<le> (1::real)"
  shows "a * a * (3 - 2 * a) \<le> b * b * (3 - 2 * b)"
proof -
  have "b * b * (3 - 2 * b) - a * a * (3 - 2 * a)
        = (b - a) * (a * (3 - 2 * a - b) + b * (3 - 2 * b - a))"
    by (simp add: algebra_simps)
  moreover have "0 \<le> (b - a) * (a * (3 - 2 * a - b) + b * (3 - 2 * b - a))"
    using assms by (intro mult_nonneg_nonneg add_nonneg_nonneg) auto
  ultimately show ?thesis by simp
qed

lemma clamp_mono: "x \<le> y \<Longrightarrow> clamp x lo hi \<le> clamp y lo hi"
  by (simp add: clamp_def min_def max_def)

lemma smoothstep_mono:
  assumes "e0 < e1" "x \<le> y"
  shows "smoothstep e0 e1 x \<le> smoothstep e0 e1 y"
proof -
  define a where "a = clamp ((x - e0) / (e1 - e0)) 0 1"
  define b where "b = clamp ((y - e0) / (e1 - e0)) 0 1"
  have "(x - e0) / (e1 - e0) \<le> (y - e0) / (e1 - e0)"
    using assms by (simp add: divide_right_mono)
  then have "a \<le> b"
    unfolding a_def b_def by (rule clamp_mono)
  moreover have "0 \<le> a" "b \<le> 1"
    by (simp_all add: a_def b_def clamp_def)
  ultimately have "a * a * (3 - 2 * a) \<le> b * b * (3 - 2 * b)"
    by (intro smoothstep_poly_mono)
  then show ?thesis
    by (simp add: smoothstep_def Let_def a_def b_def)
qed

lemma smoothstep_low: "e0 < e1 \<Longrightarrow> x \<le> e0 \<Longrightarrow> smoothstep e0 e1 x = 0"
  by (simp add: smoothstep_def clamp_def Let_def max_def min_def divide_nonpos_pos)

lemma smoothstep_high:
  assumes "e0 < e1" "e1 \<le> x"
  shows "smoothstep e0 e1 x = 1"
proof -
  have "1 \<le> (x - e0) / (e1 - e0)"
    using assms by (simp add: le_divide_eq)
  then have "clamp ((x - e0) / (e1 - e0)) 0 1 = 1"
    by (simp add: clamp_def)
  then show ?thesis
    by (simp add: smoothstep_def Let_def)
qed

lemma smoothstep_inside:
  assumes "e0 < e1" "e0 \<le> x" "x \<le> e1"
  shows "smoothstep e0 e1 x = ((x - e0) / (e1 - e0))\<^sup>2 * (3 - 2 * ((x - e0) / (e1 - e0)))"
proof -
  have "0 \<le> (x - e0) / (e1 - e0)" "(x - e0) / (e1 - e0) \<le> 1"
    using assms by (simp_all add: divide_le_eq)
  then have "clamp ((x - e0) / (e1 - e0)) 0 1 = (x - e0) / (e1 - e0)"
    by (simp add: clamp_def)
  then show ?thesis
    by (simp add: smoothstep_def Let_def power2_eq_square)
qed

lemma sqrt_074_bounds: "0.86 < sqrt 0.74" "sqrt 0.74 < 0.8603"
  by (rule real_less_rsqrt, simp add: power2_eq_square) (rule real_less_lsqrt, simp_all add: power2_eq_square)

lemma corner_value_bounds:
  "0.186 < smoothstep 0.6 1.4 (sqrt 0.74) * 0.75" "smoothstep 0.6 1.4 (sqrt 0.74) * 0.75 < 0.187"
proof -
  have "smoothstep 0.6 1.4 0.86 \<le> smoothstep 0.6 1.4 (sqrt 0.74)"
    by (rule smoothstep_mono) (use sqrt_074_bounds in simp_all)
  moreover have "(0.2482::real) < smoothstep 0.6 1.4 0.86"
    by (subst smoothstep_inside) (simp_all add: power2_eq_square)
  ultimately show "0.186 < smoothstep 0.6 1.4 (sqrt 0.74) * 0.75" by simp
  have "smoothstep 0.6 1.4 (sqrt 0.74) \<le> smoothstep 0.6 1.4 0.8603"
    by (rule smoothstep_mono) (use sqrt_074_bounds in simp_all)
  moreover have "smoothstep 0.6 1.4 0.8603 < (0.2488::real)"
    by (subst smoothstep_inside) (simp_all add: power2_eq_square)
  ultimately show "smoothstep 0.6 1.4 (sqrt 0.74) * 0.75 < 0.187" by simp
qed

lemma vig_dist_le_corner:
  assumes "0 \<le> x" "x \<le> 1" "0 \<le> y" "y \<le> (1::real)"
  shows "length_vec2 (vec2_mul (vec2_scale_sub (x, y) 2 1) (0.7, 0.5)) \<le> sqrt 0.74"
proof -
  have sq: "(a * p) * (a * p) + (b * q) * (b * q) = a\<^sup>2 * (p * p) + b\<^sup>2 * (q * q)"
    for a b p q :: real
    by (simp add: power2_eq_square algebra_simps)
  have "(x * 2 - 1)\<^sup>2 \<le> 1" "(y * 2 - 1)\<^sup>2 \<le> 1"
    using assms by (simp_all add: abs_square_le_1)
  then have "(x * 2 - 1)\<^sup>2 * (0.7 * 0.7) + (y * 2 - 1)\<^sup>2 * (0.5 * 0.5) \<le> 0.74"
    by simp
  then show ?thesis
    unfolding length_vec2_def vec2_mul_def vec2_scale_sub_def fst_conv snd_conv sq
    by (rule real_sqrt_le_mono)
qed

lemma main_vigDark:
  "map_option vigDark (main i) =
     Some (smoothstep 0.6 1.4 (length_vec2 (vec2_mul (vec2_scale_sub (v_uv i) 2 1) (0.7, 0.5))) * 0.75)"
  by (simp add: main_Some)

lemma vigDist_eq:
  "length_vec2 (vec2_mul (vec2_scale_sub uv 2 1) (0.7, 0.5))
     = sqrt (((fst uv * 2 - 1) * 0.7)\<^sup>2 + ((snd uv * 2 - 1) * 0.5)\<^sup>2)"
  by (simp add: length_vec2_def vec2_mul_def vec2_scale_sub_def power2_eq_square)

lemma sq_scale:
  "(a * p) * (a * p) + (b * q) * (b * q) = a\<^sup>2 * (p * p) + b\<^sup>2 * (q * q)"
  for a b p q :: real
  by (simp add: power2_eq_square algebra_simps)

lemma vigDist_corner:
  assumes "uv \<in> {(0, 0), (0, 1), (1, 0), (1, 1)}"
  shows "length_vec2 (vec2_mul (vec2_scale_sub uv 2 1) (0.7, 0.5)) = sqrt 0.74"
proof -
  have "(fst uv * 2 - 1)\<^sup>2 = 1" "(snd uv * 2 - 1)\<^sup>2 = 1"
    using assms by auto
  then have "(fst uv * 2 - 1)\<^sup>2 * (0.7 * 0.7) + (snd uv * 2 - 1)\<^sup>2 * (0.5 * 0.5) = 0.74"
    by simp
  then show ?thesis
    unfolding length_vec2_def vec2_mul_def vec2_scale_sub_def fst_conv snd_conv sq_scale
    by (rule arg_cong)
qed

lemma vigDist_center:
  "length_vec2 (vec2_mul (vec2_scale_sub (0.5, 0.5) 2 1) (0.7, 0.5)) = 0"
  by (simp add: length_vec2_def vec2_mul_def vec2_scale_sub_def)

text \<open>
  C2, as stated, fails at the far corner \<open>(1, 1)\<close> of the viewport: the scaled distance
  there is \<open>sqrt 0.74\<close>, inside the ramp from 0.6 to 1.4, and the vignette darkening is
  below 0.187, not the maximum 0.75.
\<close>

theorem C2_counterexample_corner_below_maximum:
  "map_option vigDark (main \<lparr>v_uv = (1, 1), u_time = 0, u_resolution = (1000, 1000)\<rparr>)
     = Some (smoothstep 0.6 1.4 (sqrt 0.74) * 0.75)
   \<and> smoothstep 0.6 1.4 (sqrt 0.74) * 0.75 < 0.187
   \<and> map_option vigDark (main \<lparr>v_uv = (1, 1), u_time = 0, u_resolution = (1000, 1000)\<rparr>)
     \<noteq> Some 0.75"
proof -
  have e: "map_option vigDark (main \<lparr>v_uv = (1, 1), u_time = 0, u_resolution = (1000, 1000)\<rparr>)
     = Some (smoothstep 0.6 1.4 (sqrt 0.74) * 0.75)"
    using vigDist_corner [of "(1, 1)"] by (simp add: main_vigDark)
  have l: "smoothstep 0.6 1.4 (sqrt 0.74) * 0.75 < 0.187"
    by (rule corner_value_bounds)
  then have "smoothstep 0.6 1.4 (sqrt 0.74) * 0.75 \<noteq> 0.75"
    by simp
  with l show ?thesis
    unfolding e by auto
qed

text \<open>
  C2, amended. The vignette darkening is \<open>smoothstep 0.6 1.4 d * 0.75\<close> with \<open>d\<close> the
  Euclidean length of \<open>2 * uv - 1\<close> scaled componentwise by \<open>(0.7, 0.5)\<close>. The centre
  \<open>(0.5, 0.5)\<close> receives 0 and every coordinate with \<open>d \<ge> 1.4\<close> receives the maximum
  0.75. The four corners of the viewport have \<open>d = sqrt 0.74\<close> and receive
  \<open>smoothstep 0.6 1.4 (sqrt 0.74) * 0.75\<close>, a value between 0.186 and 0.187, which is
  the largest vignette darkening of any coordinate of the unit square.
\<close>

theorem C2_vignette:
  "map_option vigDark (main i)
     = Some (smoothstep 0.6 1.4
              (sqrt (((fst (v_uv i) * 2 - 1) * 0.7)\<^sup>2 + ((snd (v_uv i) * 2 - 1) * 0.5)\<^sup>2)) * 0.75)
   \<and> (v_uv i = (0.5, 0.5) \<longrightarrow> map_option vigDark (main i) = Some 0)
   \<and> (1.4 \<le> sqrt (((fst (v_uv i) * 2 - 1) * 0.7)\<^sup>2 + ((snd (v_uv i) * 2 - 1) * 0.5)\<^sup>2)
        \<longrightarrow> map_option vigDark (main i) = Some 0.75)
   \<and> (v_uv i \<in> {(0, 0), (0, 1), (1, 0), (1, 1)}
        \<longrightarrow> map_option vigDark (main i) = Some (smoothstep 0.6 1.4 (sqrt 0.74) * 0.75))
   \<and> 0.186 < smoothstep 0.6 1.4 (sqrt 0.74) * 0.75
   \<and> smoothstep 0.6 1.4 (sqrt 0.74) * 0.75 < 0.187
   \<and> (0 \<le> fst (v_uv i) \<and> fst (v_uv i) \<le> 1 \<and> 0 \<le> snd (v_uv i) \<and> snd (v_uv i) \<le> 1
        \<longrightarrow> (\<exists>r. main i = Some r \<and> vigDark r \<le> smoothstep 0.6 1.4 (sqrt 0.74) * 0.75))"
proof (intro conjI impI)
  show "map_option vigDark (main i)
     = Some (smoothstep 0.6 1.4
              (sqrt (((fst (v_uv i) * 2 - 1) * 0.7)\<^sup>2 + ((snd (v_uv i) * 2 - 1) * 0.5)\<^sup>2)) * 0.75)"
    by (simp only: main_vigDark vigDist_eq)
next
  assume "v_uv i = (0.5, 0.5)"
  then show "map_option vigDark (main i) = Some 0"
    using vigDist_center by (simp add: main_vigDark smoothstep_low)
next
  assume "1.4 \<le> sqrt (((fst (v_uv i) * 2 - 1) * 0.7)\<^sup>2 + ((snd (v_uv i) * 2 - 1) * 0.5)\<^sup>2)"
  then have "smoothstep 0.6 1.4
      (sqrt (((fst (v_uv i) * 2 - 1) * 0.7)\<^sup>2 + ((snd (v_uv i) * 2 - 1) * 0.5)\<^sup>2)) = 1"
    by (intro smoothstep_high) simp_all
  then show "map_option vigDark (main i) = Some 0.75"
    by (simp only: main_vigDark vigDist_eq) simp
next
  assume "v_uv i \<in> {(0, 0), (0, 1), (1, 0), (1, 1)}"
  then show "map_option vigDark (main i) = Some (smoothstep 0.6 1.4 (sqrt 0.74) * 0.75)"
    by (simp only: main_vigDark vigDist_corner)
next
  show "0.186 < smoothstep 0.6 1.4 (sqrt 0.74) * 0.75"
    by (rule corner_value_bounds)
next
  show "smoothstep 0.6 1.4 (sqrt 0.74) * 0.75 < 0.187"
    by (rule corner_value_bounds)
next
  assume box: "0 \<le> fst (v_uv i) \<and> fst (v_uv i) \<le> 1 \<and> 0 \<le> snd (v_uv i) \<and> snd (v_uv i) \<le> 1"
  have "length_vec2 (vec2_mul (vec2_scale_sub (fst (v_uv i), snd (v_uv i)) 2 1) (0.7, 0.5)) \<le> sqrt 0.74"
    by (rule vig_dist_le_corner) (use box in simp_all)
  then have "smoothstep 0.6 1.4 (length_vec2 (vec2_mul (vec2_scale_sub (v_uv i) 2 1) (0.7, 0.5)))
             \<le> smoothstep 0.6 1.4 (sqrt 0.74)"
    by (intro smoothstep_mono) simp_all
  then show "\<exists>r. main i = Some r \<and> vigDark r \<le> smoothstep 0.6 1.4 (sqrt 0.74) * 0.75"
    by (simp add: main_Some)
qed

theorem C2_vignette_witness:
  "map_option vigDark (main \<lparr>v_uv = (0.5, 0.5), u_time = 0, u_resolution = (1000, 1000)\<rparr>) = Some 0
   \<and> map_option vigDark (main \<lparr>v_uv = (2, 0.5), u_time = 0, u_resolution = (1000, 1000)\<rparr>) = Some 0.75
   \<and> map_option vigDark (main \<lparr>v_uv = (0, 1), u_time = 0, u_resolution = (1000, 1000)\<rparr>)
       = Some (smoothstep 0.6 1.4 (sqrt 0.74) * 0.75)
   \<and> (\<exists>r. main \<lparr>v_uv = (0.25, 1), u_time = 0, u_resolution = (1000, 1000)\<rparr> = Some r
         \<and> vigDark r \<le> smoothstep 0.6 1.4 (sqrt 0.74) * 0.75)"
  using C2_vignette [of "\<lparr>v_uv = (0.5, 0.5), u_time = 0, u_resolution = (1000, 1000)\<rparr>"]
    C2_vignette [of "\<lparr>v_uv = (2, 0.5), u_time = 0, u_resolution = (1000, 1000)\<rparr>"]
    C2_vignette [of "\<lparr>v_uv = (0, 1), u_time = 0, u_resolution = (1000, 1000)\<rparr>"]
    C2_vignette [of "\<lparr>v_uv = (0.25, 1), u_time = 0, u_resolution = (1000, 1000)\<rparr>"]
  by simp

subsection \<open>The flicker term\<close>

lemma fract_range: "0 \<le> fract x \<and> fract x < 1"
  unfolding fract_def by linarith

lemma hash_range: "0 \<le> hash p \<and> hash p < 1"
  by (simp add: hash_def Let_def fract_range)

lemma main_flickerDark:
  "map_option flickerDark (main i) = Some ((hash (gl_floor (u_time i * 30), 0) - 0.5) * 0.08)"
  by (simp add: main_Some)

text \<open>
  Over the reals the flicker term depends on the time only through \<open>floor (u_time * 30)\<close>
  and lies between -0.04 and 0.04. Which tick a clock reading falls in once it has been
  rounded to a float is outside this embedding.
\<close>

lemma flickerDark_bounds:
  "\<exists>r. main i = Some r \<and> - 0.04 \<le> flickerDark r \<and> flickerDark r \<le> 0.04"
proof -
  have "0 \<le> hash (gl_floor (u_time i * 30), 0)" "hash (gl_floor (u_time i * 30), 0) \<le> 1"
    using hash_range [of "(gl_floor (u_time i * 30), 0)"] by simp_all
  then show ?thesis
    by (simp add: main_Some)
qed

subsection \<open>The scanline term\<close>

text \<open>
  C9. The row index is computed by one division, whose divisor is the constant
  \<open>scanThickness = 1\<close>: it has a value for every coordinate and resolution, equal to the
  product of the vertical coordinate and the resolution height. For a resolution of
  height zero the row index is 0 and the scanline darkening is 0.25 at every coordinate.
\<close>

theorem C9_zero_resolution_divides_by_constant_only:
  "fdiv (snd (v_uv i) * snd (u_resolution i)) scanThickness
     = Some (snd (v_uv i) * snd (u_resolution i))
   \<and> scanThickness = 1
   \<and> main i \<noteq> None
   \<and> map_option scanlineY (main i) = Some (snd (v_uv i) * snd (u_resolution i))
   \<and> (snd (u_resolution i) = 0
        \<longrightarrow> map_option scanlineY (main i) = Some 0
          \<and> map_option scanDark (main i) = Some 0.25)"
  by (simp add: main_Some fdiv_def scanThickness_def clamp_def)

theorem C9_zero_resolution_witness:
  "snd (u_resolution \<lparr>v_uv = (0.3, 0.7), u_time = 5, u_resolution = (0, 0)\<rparr>) = 0
   \<and> map_option scanlineY (main \<lparr>v_uv = (0.3, 0.7), u_time = 5, u_resolution = (0, 0)\<rparr>) = Some 0
   \<and> map_option scanDark (main \<lparr>v_uv = (0.3, 0.7), u_time = 5, u_resolution = (0, 0)\<rparr>) = Some 0.25"
  using C9_zero_resolution_divides_by_constant_only
    [of "\<lparr>v_uv = (0.3, 0.7), u_time = 5, u_resolution = (0, 0)\<rparr>"]
  by simp

text \<open>
  The shader multiplies the row index by the decimal constant 3.14159265. The sign and
  size of the sine at the rows of interest follow from how close that constant is to
  \<open>pi\<close>, which is bounded here by the Maclaurin expansion of the cosine.
\<close>

lemma sum16: "(\<Sum>m<16. f m) = f 0 + f 1 + f 2 + f 3 + f 4 + f 5 + f 6 + f 7 + f 8 + f 9 + f 10 + f 11 + f 12 + f 13 + f 14 + (f 15 :: real)" for f :: "nat \<Rightarrow> real"
proof -
  have "{..<16::nat} = {0,1,2,3,4,5,6,7,8,9,10,11,12,13,14,15}" by auto arith
  then show ?thesis by simp
qed

lemma cc: "cos_coeff 0 = 1" "cos_coeff (Suc 0) = 0" "cos_coeff 2 = - 1 / 2" "cos_coeff 3 = 0"
  "cos_coeff 4 = 1 / 24" "cos_coeff 5 = 0" "cos_coeff 6 = - 1 / 720" "cos_coeff 7 = 0"
  "cos_coeff 8 = 1 / 40320" "cos_coeff 9 = 0" "cos_coeff 10 = - 1 / 3628800" "cos_coeff 11 = 0"
  "cos_coeff 12 = 1 / 479001600" "cos_coeff 13 = 0" "cos_coeff 14 = - 1 / 87178291200" "cos_coeff 15 = 0"
  by (simp_all add: cos_coeff_def fact_numeral)

lemma cos_poly_16:
  "(\<Sum>m<16. cos_coeff m * x ^ m) =
     1 - x^2 / 2 + x^4 / 24 - x^6 / 720 + x^8 / 40320 - x^10 / 3628800
       + x^12 / 479001600 - x^14 / 87178291200" for x :: real
  by (simp add: sum16 cc)

lemma cos_lower_16:
  assumes "0 < (x::real)"
  shows "(\<Sum>m<16. cos_coeff m * x ^ m) - x ^ 16 / fact 16 \<le> cos x"
proof -
  obtain t where t: "cos x = (\<Sum>m<16. cos_coeff m * x ^ m) + (cos (t + 1/2 * real (16::nat) * pi) / fact 16) * x ^ 16"
    using Maclaurin_cos_expansion2 [of x 16] assms by auto
  have "- 1 \<le> cos (t + 1/2 * real (16::nat) * pi)" by (rule cos_ge_minus_one)
  then have "- 1 * (x ^ 16 / fact 16) \<le> cos (t + 1/2 * real (16::nat) * pi) * (x ^ 16 / fact 16)"
    by (intro mult_right_mono) (use assms in auto)
  with t show ?thesis by simp
qed

lemma cos_upper_16:
  assumes "0 < (x::real)"
  shows "cos x \<le> (\<Sum>m<16. cos_coeff m * x ^ m) + x ^ 16 / fact 16"
proof -
  obtain t where t: "cos x = (\<Sum>m<16. cos_coeff m * x ^ m) + (cos (t + 1/2 * real (16::nat) * pi) / fact 16) * x ^ 16"
    using Maclaurin_cos_expansion2 [of x 16] assms by auto
  have "cos (t + 1/2 * real (16::nat) * pi) \<le> 1" by (rule cos_le_one)
  then have "cos (t + 1/2 * real (16::nat) * pi) * (x ^ 16 / fact 16) \<le> 1 * (x ^ 16 / fact 16)"
    by (intro mult_right_mono) (use assms in auto)
  with t show ?thesis by simp
qed

lemma cos_pos_at: "0 < cos (1.570796325::real)"
proof -
  have "(0::real) < (\<Sum>m<16. cos_coeff m * (1.570796325::real) ^ m) - 1.570796325 ^ 16 / fact 16"
    unfolding cos_poly_16 by (simp add: fact_numeral power_divide)
  also have "\<dots> \<le> cos 1.570796325" by (rule cos_lower_16) simp
  finally show ?thesis .
qed

lemma cos_neg_at: "cos (1.57079633::real) < 0"
proof -
  have "cos (1.57079633::real) \<le> (\<Sum>m<16. cos_coeff m * (1.57079633::real) ^ m) + 1.57079633 ^ 16 / fact 16"
    by (rule cos_upper_16) simp
  also have "\<dots> < 0"
    unfolding cos_poly_16 by (simp add: fact_numeral power_divide)
  finally show ?thesis .
qed

lemma pi_lower: "3.14159265 < pi"
proof (rule ccontr)
  assume "\<not> 3.14159265 < pi"
  then have h: "pi / 2 \<le> 1.570796325" by simp
  have "1.570796325 \<le> pi" using pi_ge_two by simp
  from cos_monotone_0_pi_le [OF _ h this] have "cos (1.570796325::real) \<le> 0" by simp
  with cos_pos_at show False by simp
qed

lemma pi_upper: "pi < 3.14159266"
proof (rule ccontr)
  assume "\<not> pi < 3.14159266"
  then have h: "1.57079633 \<le> pi / 2" by simp
  have "0 \<le> cos (1.57079633::real)" by (rule cos_ge_zero) (use h in auto)
  with cos_neg_at show False by simp
qed


lemma pi_gap: "0 < pi - 3.14159265" "pi - 3.14159265 < 1 / 10 ^ 8"
  using pi_lower pi_upper by simp_all

lemma cos_ge_parabola: "1 - x\<^sup>2 / 2 \<le> cos x" for x :: real
proof -
  have "\<bar>sin (x / 2)\<bar> \<le> \<bar>x / 2\<bar>" by (rule abs_sin_x_le_abs_x)
  then have "(sin (x / 2))\<^sup>2 \<le> (x / 2)\<^sup>2"
    by (rule abs_le_square_iff [THEN iffD1])
  moreover have "cos x = 1 - 2 * (sin (x / 2))\<^sup>2"
    using cos_double_sin [of "x / 2"] by simp
  ultimately show ?thesis by (simp add: power2_eq_square)
qed

lemma trig_even_centre:
  "sin ((2 * real k + 1 / 2) * pi) = 1" "cos ((2 * real k + 1 / 2) * pi) = 0"
proof -
  have e: "(2 * real k + 1 / 2) * pi = 2 * real k * pi + pi / 2"
    by (simp add: algebra_simps)
  show "sin ((2 * real k + 1 / 2) * pi) = 1" "cos ((2 * real k + 1 / 2) * pi) = 0"
    unfolding e by (simp_all add: sin_add cos_add)
qed

lemma trig_odd_centre:
  "sin ((2 * real k + 3 / 2) * pi) = - 1" "cos ((2 * real k + 3 / 2) * pi) = 0"
proof -
  have e: "(2 * real k + 3 / 2) * pi = (2 * real k + 1 / 2) * pi + pi"
    by (simp add: algebra_simps)
  show "sin ((2 * real k + 3 / 2) * pi) = - 1" "cos ((2 * real k + 3 / 2) * pi) = 0"
    by (simp_all only: e sin_periodic_pi cos_periodic_pi trig_even_centre)
qed

lemma main_scanDark:
  "map_option scanDark (main i)
     = Some ((1 - clamp (sin (snd (v_uv i) * snd (u_resolution i) * 3.14159265)) 0 1) * 0.25)"
  by (simp add: main_Some)

lemma clamp_nonpos: "x \<le> 0 \<Longrightarrow> clamp x 0 1 = 0"
  by (simp add: clamp_def)

lemma clamp_unit_ge: "a \<le> x \<Longrightarrow> a \<le> 1 \<Longrightarrow> a \<le> clamp x 0 1"
  by (simp add: clamp_def min_def max_def)

lemma clamp_unit_le: "x \<le> b \<Longrightarrow> 0 \<le> b \<Longrightarrow> clamp x 0 1 \<le> b"
  by (simp add: clamp_def min_def max_def)

text \<open>
  The bounds below are stated for the argument \<open>row * 3.14159265\<close> of the sine and also
  for every argument within \<open>1 / 1000\<close> of it. For rows up to 4096 that margin covers
  the rounding of the constant to a 32-bit float (3.14159274, above \<open>pi\<close>) and of the
  product.
\<close>

lemma near_pi_multiple:
  assumes "0 \<le> r" "r \<le> 4097" "\<bar>a - r * 3.14159265\<bar> \<le> 1 / 1000"
  shows "\<bar>a - r * pi\<bar> \<le> 2 / 1000"
proof -
  have "0 \<le> r * (pi - 3.14159265)"
    using assms pi_gap by (intro mult_nonneg_nonneg) simp_all
  moreover have "r * (pi - 3.14159265) \<le> 4097 * (1 / 10 ^ 8)"
    using assms pi_gap by (intro mult_mono) simp_all
  ultimately have d: "\<bar>r * (pi - 3.14159265)\<bar> \<le> 1 / 1000"
    by simp
  have "a - r * pi = (a - r * 3.14159265) - r * (pi - 3.14159265)"
    by (simp add: algebra_simps)
  then have "\<bar>a - r * pi\<bar> \<le> \<bar>a - r * 3.14159265\<bar> + \<bar>r * (pi - 3.14159265)\<bar>"
    by (simp only: abs_triangle_ineq4)
  also have "\<dots> \<le> 1 / 1000 + 1 / 1000"
    using assms(3) d by (rule add_mono)
  finally show ?thesis
    by simp
qed

lemma cos_near_zero:
  fixes y :: real
  assumes "\<bar>y\<bar> \<le> 2 / 1000"
  shows "1 - 1 / 10 ^ 5 \<le> cos y"
proof -
  have "\<bar>y\<bar> \<le> \<bar>2 / 1000\<bar>"
    using assms by simp
  then have "y\<^sup>2 \<le> (2 / 1000)\<^sup>2"
    by (rule abs_le_square_iff [THEN iffD1])
  then have "1 - 1 / 10 ^ 5 \<le> 1 - y\<^sup>2 / 2"
    by (simp add: power2_eq_square)
  also have "\<dots> \<le> cos y"
    by (rule cos_ge_parabola)
  finally show ?thesis .
qed

lemma sin_near_even_centre:
  assumes "\<bar>a - (2 * real k + 1 / 2) * pi\<bar> \<le> 2 / 1000"
  shows "1 - 1 / 10 ^ 5 \<le> sin a"
proof -
  define y where "y = a - (2 * real k + 1 / 2) * pi"
  have "sin ((2 * real k + 1 / 2) * pi + y)
          = sin ((2 * real k + 1 / 2) * pi) * cos y + cos ((2 * real k + 1 / 2) * pi) * sin y"
    by (rule sin_add)
  also have "\<dots> = cos y"
    by (simp add: trig_even_centre)
  finally have "sin a = cos y"
    by (simp add: y_def)
  moreover have "1 - 1 / 10 ^ 5 \<le> cos y"
    using assms by (intro cos_near_zero) (simp add: y_def)
  ultimately show ?thesis by simp
qed

lemma sin_near_odd_centre:
  assumes "\<bar>a - (2 * real k + 3 / 2) * pi\<bar> \<le> 2 / 1000"
  shows "sin a < 0"
proof -
  define y where "y = a - (2 * real k + 3 / 2) * pi"
  have "sin ((2 * real k + 3 / 2) * pi + y)
          = sin ((2 * real k + 3 / 2) * pi) * cos y + cos ((2 * real k + 3 / 2) * pi) * sin y"
    by (rule sin_add)
  also have "\<dots> = - cos y"
    by (simp add: trig_odd_centre)
  finally have "sin a = - cos y"
    by (simp add: y_def)
  moreover have "1 - 1 / 10 ^ 5 \<le> cos y"
    using assms by (intro cos_near_zero) (simp add: y_def)
  ultimately show ?thesis by simp
qed

lemma sin_near_boundary:
  assumes "\<bar>a - real n * pi\<bar> \<le> 2 / 1000"
  shows "\<bar>sin a\<bar> \<le> 2 / 1000"
proof -
  define y where "y = a - real n * pi"
  have "sin (real n * pi + y) = sin (real n * pi) * cos y + cos (real n * pi) * sin y"
    by (rule sin_add)
  also have "\<dots> = (- 1) ^ n * sin y"
    by simp
  finally have "sin a = (- 1) ^ n * sin y"
    by (simp add: y_def)
  then have "\<bar>sin a\<bar> = \<bar>sin y\<bar>"
    by (simp add: abs_mult power_abs)
  also have "\<dots> \<le> \<bar>y\<bar>"
    by (rule abs_sin_x_le_abs_x)
  also have "\<dots> \<le> 2 / 1000"
    using assms by (simp add: y_def)
  finally show ?thesis .
qed

lemma dark_even_centre:
  assumes "k \<le> 2047" "\<bar>a - (2 * real k + 1 / 2) * 3.14159265\<bar> \<le> 1 / 1000"
  shows "0 \<le> (1 - clamp (sin a) 0 1) * 0.25 \<and> (1 - clamp (sin a) 0 1) * 0.25 \<le> 1 / 1000"
proof -
  have "\<bar>a - (2 * real k + 1 / 2) * pi\<bar> \<le> 2 / 1000"
    using assms by (intro near_pi_multiple) simp_all
  then have "1 - 1 / 10 ^ 5 \<le> sin a"
    by (rule sin_near_even_centre)
  then have "1 - 1 / 10 ^ 5 \<le> clamp (sin a) 0 1"
    by (intro clamp_unit_ge) simp_all
  moreover have "clamp (sin a) 0 1 \<le> 1"
    by (simp add: clamp_def)
  ultimately show ?thesis
    by simp
qed

lemma dark_odd_centre:
  assumes "k \<le> 2047" "\<bar>a - (2 * real k + 3 / 2) * 3.14159265\<bar> \<le> 1 / 1000"
  shows "(1 - clamp (sin a) 0 1) * 0.25 = 0.25"
proof -
  have "\<bar>a - (2 * real k + 3 / 2) * pi\<bar> \<le> 2 / 1000"
    using assms by (intro near_pi_multiple) simp_all
  then have "sin a < 0"
    by (rule sin_near_odd_centre)
  then have "clamp (sin a) 0 1 = 0"
    by (intro clamp_nonpos) simp
  then show ?thesis by simp
qed

lemma dark_boundary:
  assumes "n \<le> 4096" "\<bar>a - real n * 3.14159265\<bar> \<le> 1 / 1000"
  shows "0.249 \<le> (1 - clamp (sin a) 0 1) * 0.25 \<and> (1 - clamp (sin a) 0 1) * 0.25 \<le> 0.25"
proof -
  have "\<bar>a - real n * pi\<bar> \<le> 2 / 1000"
    using assms by (intro near_pi_multiple) simp_all
  then have "\<bar>sin a\<bar> \<le> 2 / 1000"
    by (rule sin_near_boundary)
  then have "sin a \<le> 2 / 1000"
    by simp
  then have "clamp (sin a) 0 1 \<le> 2 / 1000"
    by (intro clamp_unit_le) simp_all
  moreover have "0 \<le> clamp (sin a) 0 1"
    by (simp add: clamp_def)
  ultimately show ?thesis
    by simp
qed

text \<open>
  C3, as stated, fails at the centre of the pixel row of index 1: at resolution
  1000 by 1000 the coordinate \<open>y = 3 / 2000\<close> has row index \<open>3 / 2\<close>, the sine is negative
  there, and the scanline darkening is the full 0.25, not approximately 0.
\<close>

theorem C3_counterexample_odd_row_centre_is_dark:
  "map_option scanDark (main \<lparr>v_uv = (1 / 2, 3 / 2000), u_time = 0, u_resolution = (1000, 1000)\<rparr>)
     = Some 0.25"
proof -
  have "(1 - clamp (sin ((2 * real 0 + 3 / 2) * 3.14159265)) 0 1) * 0.25 = 0.25"
    using dark_odd_centre [of 0 "(2 * real 0 + 3 / 2) * 3.14159265"] by simp
  then show ?thesis
    by (simp add: main_scanDark)
qed

text \<open>
  C3, amended. The scanline darkening is \<open>(1 - clamp (sin (row * 3.14159265)) 0 1) * 0.25\<close>
  with \<open>row = y * resolution height\<close>. The pattern has a period of two rows. For rows up
  to 4096: at the centre \<open>2 * k + 1 / 2\<close> of a row of even index the darkening is
  approximately 0 (at most 0.001); at the centre \<open>2 * k + 3 / 2\<close> of a row of odd index
  it is 0.25; at a whole row index, the boundary between two rows, it is approximately
  0.25 (between 0.249 and 0.25). Each of these also holds when the argument of the sine
  is off by up to \<open>1 / 1000\<close>.
\<close>

theorem C3_scanline_bands:
  "map_option scanDark (main i)
     = Some ((1 - clamp (sin (snd (v_uv i) * snd (u_resolution i) * 3.14159265)) 0 1) * 0.25)
   \<and> (snd (v_uv i) * snd (u_resolution i) = 2 * real k + 1 / 2 \<and> k \<le> 2047
        \<longrightarrow> (\<exists>r. main i = Some r \<and> 0 \<le> scanDark r \<and> scanDark r \<le> 1 / 1000)
          \<and> (\<forall>a. \<bar>a - snd (v_uv i) * snd (u_resolution i) * 3.14159265\<bar> \<le> 1 / 1000
                \<longrightarrow> 0 \<le> (1 - clamp (sin a) 0 1) * 0.25
                  \<and> (1 - clamp (sin a) 0 1) * 0.25 \<le> 1 / 1000))
   \<and> (snd (v_uv i) * snd (u_resolution i) = 2 * real k + 3 / 2 \<and> k \<le> 2047
        \<longrightarrow> map_option scanDark (main i) = Some 0.25
          \<and> (\<forall>a. \<bar>a - snd (v_uv i) * snd (u_resolution i) * 3.14159265\<bar> \<le> 1 / 1000
                \<longrightarrow> (1 - clamp (sin a) 0 1) * 0.25 = 0.25))
   \<and> (snd (v_uv i) * snd (u_resolution i) = real n \<and> n \<le> 4096
        \<longrightarrow> (\<exists>r. main i = Some r \<and> 0.249 \<le> scanDark r \<and> scanDark r \<le> 0.25)
          \<and> (\<forall>a. \<bar>a - snd (v_uv i) * snd (u_resolution i) * 3.14159265\<bar> \<le> 1 / 1000
                \<longrightarrow> 0.249 \<le> (1 - clamp (sin a) 0 1) * 0.25
                  \<and> (1 - clamp (sin a) 0 1) * 0.25 \<le> 0.25))"
proof (intro conjI impI allI)
  show "map_option scanDark (main i)
     = Some ((1 - clamp (sin (snd (v_uv i) * snd (u_resolution i) * 3.14159265)) 0 1) * 0.25)"
    by (rule main_scanDark)
next
  assume h: "snd (v_uv i) * snd (u_resolution i) = 2 * real k + 1 / 2 \<and> k \<le> 2047"
  then have "0 \<le> (1 - clamp (sin ((2 * real k + 1 / 2) * 3.14159265)) 0 1) * 0.25
      \<and> (1 - clamp (sin ((2 * real k + 1 / 2) * 3.14159265)) 0 1) * 0.25 \<le> 1 / 1000"
    using dark_even_centre [of k "(2 * real k + 1 / 2) * 3.14159265"] by simp
  then show "\<exists>r. main i = Some r \<and> 0 \<le> scanDark r \<and> scanDark r \<le> 1 / 1000"
    using h by (simp add: main_Some)
next
  fix a
  assume h: "snd (v_uv i) * snd (u_resolution i) = 2 * real k + 1 / 2 \<and> k \<le> 2047"
    and a: "\<bar>a - snd (v_uv i) * snd (u_resolution i) * 3.14159265\<bar> \<le> 1 / 1000"
  from h a have "\<bar>a - (2 * real k + 1 / 2) * 3.14159265\<bar> \<le> 1 / 1000" by simp
  with h have r: "0 \<le> (1 - clamp (sin a) 0 1) * 0.25 \<and> (1 - clamp (sin a) 0 1) * 0.25 \<le> 1 / 1000"
    by (intro dark_even_centre [of k a]) simp_all
  from r show "0 \<le> (1 - clamp (sin a) 0 1) * 0.25" ..
  from r show "(1 - clamp (sin a) 0 1) * 0.25 \<le> 1 / 1000" ..
next
  assume h: "snd (v_uv i) * snd (u_resolution i) = 2 * real k + 3 / 2 \<and> k \<le> 2047"
  then have "(1 - clamp (sin ((2 * real k + 3 / 2) * 3.14159265)) 0 1) * 0.25 = 0.25"
    using dark_odd_centre [of k "(2 * real k + 3 / 2) * 3.14159265"] by simp
  then show "map_option scanDark (main i) = Some 0.25"
    using h by (simp add: main_scanDark)
next
  fix a
  assume h: "snd (v_uv i) * snd (u_resolution i) = 2 * real k + 3 / 2 \<and> k \<le> 2047"
    and a: "\<bar>a - snd (v_uv i) * snd (u_resolution i) * 3.14159265\<bar> \<le> 1 / 1000"
  from h a have "\<bar>a - (2 * real k + 3 / 2) * 3.14159265\<bar> \<le> 1 / 1000" by simp
  with h show "(1 - clamp (sin a) 0 1) * 0.25 = 0.25"
    by (intro dark_odd_centre [of k a]) simp_all
next
  assume h: "snd (v_uv i) * snd (u_resolution i) = real n \<and> n \<le> 4096"
  then have "0.249 \<le> (1 - clamp (sin (real n * 3.14159265)) 0 1) * 0.25
      \<and> (1 - clamp (sin (real n * 3.14159265)) 0 1) * 0.25 \<le> 0.25"
    using dark_boundary [of n "real n * 3.14159265"] by simp
  then show "\<exists>r. main i = Some r \<and> 0.249 \<le> scanDark r \<and> scanDark r \<le> 0.25"
    using h by (simp add: main_Some)
next
  fix a
  assume h: "snd (v_uv i) * snd (u_resolution i) = real n \<and> n \<le> 4096"
    and a: "\<bar>a - snd (v_uv i) * snd (u_resolution i) * 3.14159265\<bar> \<le> 1 / 1000"
  from h a have "\<bar>a - real n * 3.14159265\<bar> \<le> 1 / 1000" by simp
  with h have r: "0.249 \<le> (1 - clamp (sin a) 0 1) * 0.25 \<and> (1 - clamp (sin a) 0 1) * 0.25 \<le> 0.25"
    by (intro dark_boundary [of n a]) simp_all
  from r show "0.249 \<le> (1 - clamp (sin a) 0 1) * 0.25" ..
  from r show "(1 - clamp (sin a) 0 1) * 0.25 \<le> 0.25" ..
qed

theorem C3_scanline_bands_witness:
  "(\<exists>r. main \<lparr>v_uv = (1 / 2, 5 / 2000), u_time = 0, u_resolution = (1000, 1000)\<rparr> = Some r
        \<and> 0 \<le> scanDark r \<and> scanDark r \<le> 1 / 1000)
   \<and> map_option scanDark (main \<lparr>v_uv = (1 / 2, 7 / 2000), u_time = 0, u_resolution = (1000, 1000)\<rparr>)
        = Some 0.25
   \<and> (\<exists>r. main \<lparr>v_uv = (1 / 2, 3 / 1000), u_time = 0, u_resolution = (1000, 1000)\<rparr> = Some r
        \<and> 0.249 \<le> scanDark r \<and> scanDark r \<le> 0.25)"
  using C3_scanline_bands
          [of "\<lparr>v_uv = (1 / 2, 5 / 2000), u_time = 0, u_resolution = (1000, 1000)\<rparr>" 1 0]
        C3_scanline_bands
          [of "\<lparr>v_uv = (1 / 2, 7 / 2000), u_time = 0, u_resolution = (1000, 1000)\<rparr>" 1 0]
        C3_scanline_bands
          [of "\<lparr>v_uv = (1 / 2, 3 / 1000), u_time = 0, u_resolution = (1000, 1000)\<rparr>" 0 3]
  by simp

section \<open>Properties of the overlay\<close>

lemmas resize_defs = resize_def set_canvas_width_def set_canvas_height_def gl_viewport_def

lemma run_Nil [simp]: "run [] s = s"
  by (simp add: run_def)

lemma run_snoc [simp]: "run (evs @ [e]) s = step e (run evs s)"
  by (simp add: run_def)

lemma bloom_fold:
  "foldl (\<lambda>s l. appendChild (layer_element l) s) s ls = s\<lparr>body := body s @ map layer_element ls\<rparr>"
  by (induction ls arbitrary: s) (simp_all add: appendChild_def)

lemma compileShader_eq:
  "compileShader h ty s =
     (if createShader_ok h ty \<and> compile_status h ty
      then (Some ty, s\<lparr>shaders := shaders s @ [ty]\<rparr>) else (None, s))"
  by (simp add: compileShader_def Let_def)

lemma linkProgram_eq:
  "linkProgram h s =
     (if createProgram_ok h \<and> link_status h
      then (Some (Suc (programs s)), s\<lparr>programs := Suc (programs s)\<rparr>) else (None, s))"
  by (simp add: linkProgram_def Let_def)

lemma gl_ok_iff:
  "gl_ok h \<longleftrightarrow> getContext_ok h
     \<and> (createShader_ok h VERTEX_SHADER \<and> compile_status h VERTEX_SHADER)
     \<and> (createShader_ok h FRAGMENT_SHADER \<and> compile_status h FRAGMENT_SHADER)
     \<and> (createProgram_ok h \<and> link_status h)"
  by (auto simp add: gl_ok_def createShader_ok_def compile_status_def)

lemma initCRT_fail:
  assumes "\<not> gl_ok h"
  shows "initCRT h now s =
     s\<lparr>body := body s @ map layer_element bloomLayers @ [canvas_element],
       shaders := shaders s @
         (if getContext_ok h \<and> createShader_ok h VERTEX_SHADER \<and> compile_status h VERTEX_SHADER
          then [VERTEX_SHADER] else []) @
         (if getContext_ok h \<and> createShader_ok h FRAGMENT_SHADER \<and> compile_status h FRAGMENT_SHADER
          then [FRAGMENT_SHADER] else [])\<rparr>"
  using assms unfolding gl_ok_iff initCRT_def bloom_fold compileShader_eq linkProgram_eq
  by (auto simp add: appendChild_def Let_def)

lemma initCRT_ok:
  assumes "gl_ok h"
  shows "initCRT h now s =
     s\<lparr>body := body s @ map layer_element bloomLayers @ [canvas_element],
       shaders := shaders s @ [VERTEX_SHADER, FRAGMENT_SHADER],
       programs := Suc (programs s),
       array_buffer := [- 1, - 1, 1, - 1, - 1, 1, 1, 1],
       vertex_attrib_enabled := True,
       program_in_use := True, blend_enabled := True,
       blendFunc := Some (ONE, ONE_MINUS_SRC_ALPHA),
       resize_listeners := resize_listeners s @
         [Resize_handler (max_viewport_dims h) (max_drawing_buffer h)],
       canvas_width := innerWidth s, canvas_height := innerHeight s,
       drawingBuffer := (min (innerWidth s) (fst (max_drawing_buffer h)),
                         min (innerHeight s) (snd (max_drawing_buffer h))),
       viewport := (0, 0, min (innerWidth s) (fst (max_viewport_dims h)),
                          min (innerHeight s) (snd (max_viewport_dims h))),
       raf_queue := raf_queue s @ [Render now]\<rparr>"
  using assms unfolding gl_ok_iff initCRT_def bloom_fold compileShader_eq linkProgram_eq
  by (simp add: appendChild_def resize_defs Let_def)

lemma initCRT_body:
  "body (initCRT h now s) = body s @ map layer_element bloomLayers @ [canvas_element]"
  by (cases "gl_ok h") (simp_all add: initCRT_ok initCRT_fail)

lemma running_init: "gl_ok h \<Longrightarrow> running h t0 (initCRT h t0 (page0 w0 h0))"
  by (simp add: initCRT_ok running_def page0_def)

lemma running_step: "running h t0 s \<Longrightarrow> running h t0 (step e s)"
  by (cases e) (simp_all add: running_def resize_defs render_def Let_def)

lemma running_run: "running h t0 s \<Longrightarrow> running h t0 (run evs s)"
  by (induction evs rule: rev_induct) (simp_all add: running_step)

lemma listeners_frame:
  "body (foldl run_listener s ls) = body s"
  "draws (foldl run_listener s ls) = draws s"
  "raf_queue (foldl run_listener s ls) = raf_queue s"
  "resize_listeners (foldl run_listener s ls) = resize_listeners s"
proof (induction ls arbitrary: s)
  case Nil
  {
    case 1 show ?case by simp
  next
    case 2 show ?case by simp
  next
    case 3 show ?case by simp
  next
    case 4 show ?case by simp
  }
next
  case (Cons l ls)
  {
    case 1 show ?case by (cases l) (simp add: Cons.IH resize_defs Let_def)
  next
    case 2 show ?case by (cases l) (simp add: Cons.IH resize_defs Let_def)
  next
    case 3 show ?case by (cases l) (simp add: Cons.IH resize_defs Let_def)
  next
    case 4 show ?case by (cases l) (simp add: Cons.IH resize_defs Let_def)
  }
qed

lemma callbacks_frame:
  "body (foldl (run_callback now) s cs) = body s"
  "resize_listeners (foldl (run_callback now) s cs) = resize_listeners s"
  "canvas_width (foldl (run_callback now) s cs) = canvas_width s"
  "canvas_height (foldl (run_callback now) s cs) = canvas_height s"
  "drawingBuffer (foldl (run_callback now) s cs) = drawingBuffer s"
  "viewport (foldl (run_callback now) s cs) = viewport s"
proof (induction cs arbitrary: s)
  case Nil
  {
    case 1 show ?case by simp
  next
    case 2 show ?case by simp
  next
    case 3 show ?case by simp
  next
    case 4 show ?case by simp
  next
    case 5 show ?case by simp
  next
    case 6 show ?case by simp
  }
next
  case (Cons c cs)
  {
    case 1 show ?case by (cases c) (simp add: Cons.IH render_def Let_def)
  next
    case 2 show ?case by (cases c) (simp add: Cons.IH render_def Let_def)
  next
    case 3 show ?case by (cases c) (simp add: Cons.IH render_def Let_def)
  next
    case 4 show ?case by (cases c) (simp add: Cons.IH render_def Let_def)
  next
    case 5 show ?case by (cases c) (simp add: Cons.IH render_def Let_def)
  next
    case 6 show ?case by (cases c) (simp add: Cons.IH render_def Let_def)
  }
qed

lemma body_step: "body (step e s) = body s"
  by (cases e) (simp_all add: listeners_frame callbacks_frame)

lemma body_run: "body (run evs s) = body s"
  by (induction evs rule: rev_induct) (simp_all add: body_step)



lemma idle_step:
  "raf_queue s = [] \<Longrightarrow> raf_queue (step e s) = [] \<and> draws (step e s) = draws s"
  by (cases e) (simp_all add: listeners_frame)

lemma idle_run:
  "raf_queue s = [] \<Longrightarrow> raf_queue (run evs s) = [] \<and> draws (run evs s) = draws s"
  by (induction evs rule: rev_induct) (simp_all add: idle_step)

lemma frame_times_append: "frame_times (xs @ ys) = frame_times xs @ frame_times ys"
  by (induction xs rule: frame_times.induct) simp_all

lemma running_frame:
  assumes "running h t0 s"
  shows "draws (step (Frame now) s) = draws s @
           [\<lparr>d_time = (now - t0) / 1000,
             d_resolution = (real (innerWidth s), real (innerHeight s)),
             d_viewport = (0, 0, min (innerWidth s) (fst (max_viewport_dims h)),
                           min (innerHeight s) (snd (max_viewport_dims h)))\<rparr>]"
    and "uniform_time (step (Frame now) s) = (now - t0) / 1000"
    and "raf_queue (step (Frame now) s) = [Render t0]"
  using assms by (simp_all add: running_def render_def Let_def)

lemma running_resize:
  assumes "running h t0 s"
  shows "canvas_width (step (Resize w ht) s) = w"
    and "canvas_height (step (Resize w ht) s) = ht"
    and "drawingBuffer (step (Resize w ht) s)
           = (min w (fst (max_drawing_buffer h)), min ht (snd (max_drawing_buffer h)))"
    and "viewport (step (Resize w ht) s)
           = (0, 0, min w (fst (max_viewport_dims h)), min ht (snd (max_viewport_dims h)))"
    and "innerWidth (step (Resize w ht) s) = w"
    and "innerHeight (step (Resize w ht) s) = ht"
    and "draws (step (Resize w ht) s) = draws s"
  using assms by (simp_all add: running_def resize_defs Let_def)

lemma running_times:
  assumes "running h t0 s"
  shows "map d_time (draws (run evs s))
           = map d_time (draws s) @ map (\<lambda>now. (now - t0) / 1000) (frame_times evs)"
proof (induction evs rule: rev_induct)
  case Nil
  show ?case by simp
next
  case (snoc e evs)
  have r: "running h t0 (run evs s)"
    using assms by (rule running_run)
  show ?case
  proof (cases e)
    case (Resize w ht)
    then show ?thesis
      using snoc.IH by (simp add: running_resize [OF r] frame_times_append del: step.simps)
  next
    case (Frame now)
    then show ?thesis
      using snoc.IH by (simp add: running_frame [OF r] frame_times_append del: step.simps)
  qed
qed


text \<open>
  C5, as stated, fails when the context cannot be acquired: the canvas was appended to
  the body before \<open>getContext\<close> was called, so the body holds the eight bloom layers and
  the canvas, one overlay element more than the bloom layer stack.
\<close>

theorem C5_counterexample_canvas_stays_in_body:
  "body (initCRT \<lparr>getContext_ok = False, createShader_vs_ok = True, compile_status_vs = True,
           createShader_fs_ok = True, compile_status_fs = True, createProgram_ok = True,
           link_status = True, max_viewport_dims = (8192, 8192),
           max_drawing_buffer = (8192, 8192)\<rparr> 0 (page0 800 600))
     = map layer_element bloomLayers @ [canvas_element]
   \<and> body (initCRT \<lparr>getContext_ok = False, createShader_vs_ok = True, compile_status_vs = True,
           createShader_fs_ok = True, compile_status_fs = True, createProgram_ok = True,
           link_status = True, max_viewport_dims = (8192, 8192),
           max_drawing_buffer = (8192, 8192)\<rparr> 0 (page0 800 600))
     \<noteq> map layer_element bloomLayers"
  by (simp add: initCRT_fail gl_ok_def page0_def)

text \<open>
  C5, amended. If the context cannot be acquired, or compiling the vertex or the fragment
  shader fails, or linking fails, then \<open>initCRT\<close> returns without scheduling a frame,
  registering a resize handler or drawing, and no frame of any later run draws. The
  elements added to the body are the bloom layer stack followed by the canvas element,
  which was appended before the context was requested. Every call of \<open>initCRT\<close> reports
  failure by a null result, so \<open>initCRT\<close> always returns and the handler of
  \<open>DOMContentLoaded\<close> goes on to \<open>initMenu\<close>.
\<close>

theorem C5_failed_init_is_silent:
  assumes "\<not> gl_ok h"
  shows "body (initCRT h now s) = body s @ map layer_element bloomLayers @ [canvas_element]
    \<and> raf_queue (initCRT h now s) = raf_queue s
    \<and> resize_listeners (initCRT h now s) = resize_listeners s
    \<and> draws (initCRT h now s) = draws s
    \<and> raf_queue (run evs (initCRT h now (page0 w0 h0))) = []
    \<and> draws (run evs (initCRT h now (page0 w0 h0))) = []
    \<and> body (run evs (initCRT h now (page0 w0 h0))) = map layer_element bloomLayers @ [canvas_element]
    \<and> onDOMContentLoaded h now s doc = (initCRT h now s, initMenu doc)"
proof -
  have "raf_queue (initCRT h now (page0 w0 h0)) = []"
    by (simp add: initCRT_fail [OF assms] page0_def)
  from idle_run [OF this, of evs]
  have "raf_queue (run evs (initCRT h now (page0 w0 h0))) = []"
    "draws (run evs (initCRT h now (page0 w0 h0))) = []"
    by (simp_all add: initCRT_fail [OF assms] page0_def)
  then show ?thesis
    by (simp add: initCRT_fail [OF assms] body_run page0_def onDOMContentLoaded_def)
qed

theorem C5_failed_init_witness:
  "\<not> gl_ok \<lparr>getContext_ok = True, createShader_vs_ok = True, compile_status_vs = True,
           createShader_fs_ok = True, compile_status_fs = False, createProgram_ok = True,
           link_status = True, max_viewport_dims = (8192, 8192),
           max_drawing_buffer = (8192, 8192)\<rparr>
   \<and> draws (run [Frame 16, Resize 1920 1080, Frame 33]
        (initCRT \<lparr>getContext_ok = True, createShader_vs_ok = True, compile_status_vs = True,
           createShader_fs_ok = True, compile_status_fs = False, createProgram_ok = True,
           link_status = True, max_viewport_dims = (8192, 8192),
           max_drawing_buffer = (8192, 8192)\<rparr> 0 (page0 800 600))) = []
   \<and> body (run [Frame 16, Resize 1920 1080, Frame 33]
        (initCRT \<lparr>getContext_ok = True, createShader_vs_ok = True, compile_status_vs = True,
           createShader_fs_ok = True, compile_status_fs = False, createProgram_ok = True,
           link_status = True, max_viewport_dims = (8192, 8192),
           max_drawing_buffer = (8192, 8192)\<rparr> 0 (page0 800 600)))
       = map layer_element bloomLayers @ [canvas_element]"
proof -
  have h: "\<not> gl_ok \<lparr>getContext_ok = True, createShader_vs_ok = True, compile_status_vs = True,
           createShader_fs_ok = True, compile_status_fs = False, createProgram_ok = True,
           link_status = True, max_viewport_dims = (8192, 8192),
           max_drawing_buffer = (8192, 8192)\<rparr>"
    by (simp add: gl_ok_def)
  show ?thesis
    using h C5_failed_init_is_silent [OF h, of 0 "page0 800 600" "[Frame 16, Resize 1920 1080, Frame 33]" 800 600 "Element [] [] [] [] []"]
    by simp
qed

text \<open>
  C6. There are exactly 8 bloom layer descriptors, with the blur radii, brightness
  factors and opacities of the source in its order; the blur radii strictly increase
  and the opacities strictly decrease along the list. Whatever the host answers,
  \<open>initCRT\<close> appends one \<open>div\<close> per descriptor, in order, before the canvas; the style
  of each carries its descriptor's blur radius and brightness factor in both
  \<open>backdrop-filter\<close> declarations and its opacity in the \<open>opacity\<close> declaration. No event
  of a later run changes the elements of the body.
\<close>

theorem C6_eight_fixed_bloom_layers:
  "length bloomLayers = 8
   \<and> map blur bloomLayers = [0.5, 1.5, 3, 6, 12, 24, 48, 80]
   \<and> map brightness bloomLayers = [1.1, 1.15, 1.2, 1.25, 1.2, 1.15, 1.1, 1.05]
   \<and> map opacity bloomLayers = [0.45, 0.3, 0.2, 0.14, 0.1, 0.07, 0.04, 0.02]
   \<and> sorted_wrt (<) (map blur bloomLayers)
   \<and> sorted_wrt (>) (map opacity bloomLayers)
   \<and> body (initCRT h now s) = body s @ map layer_element bloomLayers @ [canvas_element]
   \<and> body (initCRT h now (page0 w0 h0))
       = map (\<lambda>(b, br, op). \<lparr>tagName = ''div'',
              cssText =
                [(''position'', Keyword ''fixed''), (''inset'', Number 0),
                 (''width'', Percent 100), (''height'', Percent 100),
                 (''pointer-events'', Keyword ''none''), (''z-index'', Number 9998),
                 (''backdrop-filter'', BlurBrightness b br),
                 (''-webkit-backdrop-filter'', BlurBrightness b br),
                 (''mix-blend-mode'', Keyword ''screen''), (''opacity'', Number op)]\<rparr>)
           [(0.5, 1.1, 0.45), (1.5, 1.15, 0.3), (3, 1.2, 0.2), (6, 1.25, 0.14),
            (12, 1.2, 0.1), (24, 1.15, 0.07), (48, 1.1, 0.04), (80, 1.05, 0.02)]
         @ [\<lparr>tagName = ''canvas'',
              cssText =
                [(''position'', Keyword ''fixed''), (''inset'', Number 0),
                 (''width'', Percent 100), (''height'', Percent 100),
                 (''pointer-events'', Keyword ''none''), (''z-index'', Number 9999)]\<rparr>]
   \<and> body (run evs (initCRT h now s)) = body (initCRT h now s)"
proof -
  have "body (initCRT h now (page0 w0 h0))
       = map (\<lambda>(b, br, op). \<lparr>tagName = ''div'',
              cssText =
                [(''position'', Keyword ''fixed''), (''inset'', Number 0),
                 (''width'', Percent 100), (''height'', Percent 100),
                 (''pointer-events'', Keyword ''none''), (''z-index'', Number 9998),
                 (''backdrop-filter'', BlurBrightness b br),
                 (''-webkit-backdrop-filter'', BlurBrightness b br),
                 (''mix-blend-mode'', Keyword ''screen''), (''opacity'', Number op)]\<rparr>)
           [(0.5, 1.1, 0.45), (1.5, 1.15, 0.3), (3, 1.2, 0.2), (6, 1.25, 0.14),
            (12, 1.2, 0.1), (24, 1.15, 0.07), (48, 1.1, 0.04), (80, 1.05, 0.02)]
         @ [\<lparr>tagName = ''canvas'',
              cssText =
                [(''position'', Keyword ''fixed''), (''inset'', Number 0),
                 (''width'', Percent 100), (''height'', Percent 100),
                 (''pointer-events'', Keyword ''none''), (''z-index'', Number 9999)]\<rparr>]"
    by (simp add: initCRT_body page0_def bloomLayers_def layer_element_def canvas_element_def)
  then show ?thesis
    by (simp add: initCRT_body bloomLayers_def body_run)
qed




text \<open>
  C8. Once \<open>initCRT\<close> has succeeded with start timestamp \<open>t0\<close>, every animation frame
  whose clock reads \<open>now\<close> draws with elapsed time \<open>(now - t0) / 1000\<close>, whatever events
  came before: the frame callback queued in every state is the one that captured \<open>t0\<close>,
  and the times of all draws of a run are the frame clock readings minus \<open>t0\<close>, divided
  by 1000.
\<close>

theorem C8_elapsed_from_start_timestamp:
  assumes "gl_ok h"
  shows "draws (step (Frame now) (run evs (initCRT h t0 (page0 w0 h0))))
      = draws (run evs (initCRT h t0 (page0 w0 h0))) @
          [\<lparr>d_time = (now - t0) / 1000,
            d_resolution = (real (innerWidth (run evs (initCRT h t0 (page0 w0 h0)))), real (innerHeight (run evs (initCRT h t0 (page0 w0 h0))))),
            d_viewport = (0, 0, min (innerWidth (run evs (initCRT h t0 (page0 w0 h0)))) (fst (max_viewport_dims h)),
                          min (innerHeight (run evs (initCRT h t0 (page0 w0 h0)))) (snd (max_viewport_dims h)))\<rparr>]
    \<and> uniform_time (step (Frame now) (run evs (initCRT h t0 (page0 w0 h0)))) = (now - t0) / 1000
    \<and> raf_queue (run evs (initCRT h t0 (page0 w0 h0))) = [Render t0]
    \<and> map d_time (draws (run evs (initCRT h t0 (page0 w0 h0))))
        = map (\<lambda>now. (now - t0) / 1000) (frame_times evs)"
proof -
  have i: "running h t0 (initCRT h t0 (page0 w0 h0))"
    using assms by (rule running_init)
  then have r: "running h t0 (run evs (initCRT h t0 (page0 w0 h0)))"
    by (rule running_run)
  have "draws (initCRT h t0 (page0 w0 h0)) = []"
    by (simp add: initCRT_ok [OF assms] page0_def)
  then have "map d_time (draws (run evs (initCRT h t0 (page0 w0 h0))))
        = map (\<lambda>now. (now - t0) / 1000) (frame_times evs)"
    using running_times [OF i, of evs] by simp
  then show ?thesis
    using r by (simp add: running_frame [OF r] running_def del: step.simps)
qed

theorem C8_elapsed_witness:
  "gl_ok \<lparr>getContext_ok = True, createShader_vs_ok = True, compile_status_vs = True,
           createShader_fs_ok = True, compile_status_fs = True, createProgram_ok = True,
           link_status = True, max_viewport_dims = (8192, 8192),
           max_drawing_buffer = (8192, 8192)\<rparr>
   \<and> map d_time (draws (run [Frame 1016, Resize 1920 1080, Frame 1500, Frame 4000]
        (initCRT \<lparr>getContext_ok = True, createShader_vs_ok = True, compile_status_vs = True,
           createShader_fs_ok = True, compile_status_fs = True, createProgram_ok = True,
           link_status = True, max_viewport_dims = (8192, 8192),
           max_drawing_buffer = (8192, 8192)\<rparr> 1000 (page0 800 600))))
       = [0.016, 0.5, 3]"
proof -
  have h: "gl_ok \<lparr>getContext_ok = True, createShader_vs_ok = True, compile_status_vs = True,
           createShader_fs_ok = True, compile_status_fs = True, createProgram_ok = True,
           link_status = True, max_viewport_dims = (8192, 8192),
           max_drawing_buffer = (8192, 8192)\<rparr>"
    by (simp add: gl_ok_def)
  show ?thesis
    using h C8_elapsed_from_start_timestamp
        [OF h, of 0 "[Frame 1016, Resize 1920 1080, Frame 1500, Frame 4000]" 1000 800 600]
    by (simp del: step.simps)
qed

section \<open>Properties of the menu\<close>

lemma select_valid:
  "select_node sel anc n = Some p \<Longrightarrow> subtree n p \<noteq> None"
  "select_nodes sel anc i ks = Some p \<Longrightarrow>
     \<exists>k q. p = (i + k) # q \<and> k < length ks \<and> subtree (ks ! k) q \<noteq> None"
proof (induction sel anc n and sel anc i ks arbitrary: p and p rule: select_node_select_nodes.induct)
  case (1 sel ancestors t d c x ks)
  show ?case
  proof (cases "matches sel ancestors (Element t d c x ks)")
    case True
    with "1.prems" show ?thesis by simp
  next
    case False
    with "1.prems" have "select_nodes sel (t # ancestors) 0 ks = Some p" by simp
    from "1.IH" [OF False this] show ?thesis by auto
  qed
next
  case (2 sel ancestors i)
  then show ?case by simp
next
  case (3 sel ancestors i k ks)
  show ?case
  proof (cases "select_node sel ancestors k")
    case None
    with "3.prems" have "select_nodes sel ancestors (Suc i) ks = Some p" by simp
    from "3.IH"(2) [OF None this] obtain k' q where
      "p = (Suc i + k') # q" "k' < length ks" "subtree (ks ! k') q \<noteq> None" by blast
    then have "p = (i + Suc k') # q \<and> Suc k' < length (k # ks) \<and> subtree ((k # ks) ! Suc k') q \<noteq> None"
      by simp
    then show ?thesis by blast
  next
    case (Some q)
    with "3.prems" have "p = (i + 0) # q" by simp
    moreover have "subtree ((k # ks) ! 0) q \<noteq> None"
      using "3.IH"(1) [OF Some] by simp
    ultimately show ?thesis by (intro exI [of _ 0] exI [of _ q]) simp
  qed
qed

lemma querySelector_valid: "querySelector sel doc = Some p \<Longrightarrow> subtree doc p \<noteq> None"
  unfolding querySelector_def by (rule select_valid)

lemma subtree_append:
  "subtree n (p @ q) = (case subtree n p of None \<Rightarrow> None | Some m \<Rightarrow> subtree m q)"
  by (induction p arbitrary: n) simp_all

lemma subtree_update_same:
  "subtree doc p = Some n \<Longrightarrow> subtree (update_at p f doc) p = Some (f n)"
  by (induction p arbitrary: doc) (simp_all split: if_splits)

lemma subtree_update_sibling:
  "i \<noteq> j \<Longrightarrow> subtree (update_at (q @ [i]) f doc) (q @ [j]) = subtree doc (q @ [j])"
  by (induction q arbitrary: doc) simp_all

lemma count_id_update:
  assumes "subtree doc p = Some n"
  shows "count_id v (update_at p f doc) + count_id v n = count_id v doc + count_id v (f n)"
  using assms
proof (induction p arbitrary: doc)
  case Nil
  then show ?case by simp
next
  case (Cons i p)
  obtain t d c x ks where doc: "doc = Element t d c x ks" by (cases doc)
  from Cons.prems doc have i: "i < length ks" and s: "subtree (ks ! i) p = Some n"
    by (simp_all split: if_splits)
  have "sum_list (map (count_id v) (ks[i := y])) + count_id v (ks ! i)
          = sum_list (map (count_id v) ks) + count_id v y" for y
  proof -
    have "count_id v (ks ! i) \<in> set (map (count_id v) ks)"
      using i by simp
    then have "count_id v (ks ! i) \<le> sum_list (map (count_id v) ks)"
      by (simp only: member_le_sum_list)
    then show ?thesis
      using i by (simp add: map_update sum_list_update)
  qed
  from this [of "update_at p f (ks ! i)"] Cons.IH [OF s] show ?case
    using i by (simp add: doc)
qed

lemma count_id_insert_child:
  "count_id v (insert_child j new n) = count_id v n + count_id v new"
proof -
  obtain t d c x ks where n: "n = Element t d c x ks" by (cases n)
  have "sum_list (map (count_id v) (take j ks)) + sum_list (map (count_id v) (drop j ks))
          = sum_list (map (count_id v) ks)"
    by (metis append_take_drop_id map_append sum_list_append)
  then show ?thesis
    by (simp add: n insert_child_def)
qed

lemma toggle_open: "token \<in> set (toggle token cl) \<longleftrightarrow> token \<notin> set cl"
  by (simp add: toggle_def)

lemma initMenu_absent:
  assumes "querySelector (Type_selector ''nav'') doc = None
           \<or> querySelector (Descendant_selector ''nav'' ''ul'') doc = None"
  shows "initMenu doc = Inr \<lparr>document = doc, click_listener = None\<rparr>"
  using assms by (auto simp add: initMenu_def Let_def split: option.splits)

lemma initMenu_child:
  assumes nav: "querySelector (Type_selector ''nav'') doc = Some navp"
    and list: "querySelector (Descendant_selector ''nav'' ''ul'') doc = Some (navp @ [j])"
  shows "initMenu doc =
     Inr \<lparr>document = update_at navp
             (insert_child j (Element ''button'' ''menu-toggle'' [] ''> ABRIR COMANDOS'' [])) doc,
          click_listener = Some (navp @ [j], navp @ [Suc j])\<rparr>"
proof -
  have "subtree doc (navp @ [j]) \<noteq> None"
    using list by (rule querySelector_valid)
  then show ?thesis
    by (simp add: initMenu_def nav list insertBefore_def createElement_def set_id_def
        set_innerText_def Let_def)
qed

lemma inserted_positions:
  assumes "subtree doc (navp @ [j]) = Some l"
  shows "subtree (update_at navp (insert_child j new) doc) (navp @ [j]) = Some new"
    and "subtree (update_at navp (insert_child j new) doc) (navp @ [Suc j]) = Some l"
proof -
  from assms obtain n where n: "subtree doc navp = Some n" and l: "subtree n [j] = Some l"
    by (auto simp add: subtree_append split: option.splits)
  from l have j: "j < length (childNodes n)" and lj: "childNodes n ! j = l"
    by (simp_all split: if_splits)
  have u: "subtree (update_at navp (insert_child j new) doc) navp = Some (insert_child j new n)"
    using n by (rule subtree_update_same)
  show "subtree (update_at navp (insert_child j new) doc) (navp @ [j]) = Some new"
    using j by (simp add: subtree_append u insert_child_def nth_append)
  show "subtree (update_at navp (insert_child j new) doc) (navp @ [Suc j]) = Some l"
    using j lj by (simp add: subtree_append u insert_child_def nth_append)
qed

lemma inserted_count:
  assumes "subtree doc (navp @ [j]) = Some l"
  shows "count_id v (update_at navp (insert_child j new) doc) = count_id v doc + count_id v new"
proof -
  from assms obtain n where n: "subtree doc navp = Some n"
    by (auto simp add: subtree_append split: option.splits)
  from count_id_update [OF n, of v "insert_child j new"] show ?thesis
    by (simp add: count_id_insert_child)
qed

lemma click_step:
  assumes "click_listener m = Some (q @ [j], q @ [Suc j])"
    and "subtree (document m) (q @ [j]) = Some b"
    and "subtree (document m) (q @ [Suc j]) = Some l"
  shows "click_listener (click m) = Some (q @ [j], q @ [Suc j])"
    and "subtree (document (click m)) (q @ [Suc j])
           = Some (set_classList (toggle ''open'' (classList l)) l)"
    and "subtree (document (click m)) (q @ [j])
           = Some (set_innerText (if ''open'' \<notin> set (classList l)
                                  then ''> CERRAR COMANDOS'' else ''> ABRIR COMANDOS'') b)"
proof -
  define d1 where
    "d1 = update_at (q @ [Suc j]) (\<lambda>n. set_classList (toggle ''open'' (classList n)) n) (document m)"
  have l1: "subtree d1 (q @ [Suc j]) = Some (set_classList (toggle ''open'' (classList l)) l)"
    unfolding d1_def using assms(3) by (rule subtree_update_same)
  have b1: "subtree d1 (q @ [j]) = Some b"
    unfolding d1_def using assms(2) by (simp add: subtree_update_sibling)
  have op: "''open'' \<in> set (classList (set_classList (toggle ''open'' (classList l)) l))
              \<longleftrightarrow> ''open'' \<notin> set (classList l)"
    by (simp add: set_classList_def toggle_open)
  have c: "click m = m\<lparr>document :=
      update_at (q @ [j]) (set_innerText (if ''open'' \<notin> set (classList l)
                                  then ''> CERRAR COMANDOS'' else ''> ABRIR COMANDOS'')) d1\<rparr>"
    unfolding click_def assms(1) using l1 op by (simp add: d1_def [symmetric] Let_def)
  show "click_listener (click m) = Some (q @ [j], q @ [Suc j])"
    by (simp add: c assms(1))
  show "subtree (document (click m)) (q @ [Suc j])
           = Some (set_classList (toggle ''open'' (classList l)) l)"
    by (simp add: c subtree_update_sibling l1)
  show "subtree (document (click m)) (q @ [j])
           = Some (set_innerText (if ''open'' \<notin> set (classList l)
                                  then ''> CERRAR COMANDOS'' else ''> ABRIR COMANDOS'') b)"
    unfolding c using b1 by (simp add: subtree_update_same)
qed

lemma clicks_invariant:
  assumes "click_listener m = Some (q @ [j], q @ [Suc j])"
    and "subtree (document m) (q @ [j]) = Some b"
    and "tag b = ''button''" "ident b = ''menu-toggle''"
    and "subtree (document m) (q @ [Suc j]) = Some l"
  shows "\<exists>b' l'. click_listener ((click ^^ n) m) = Some (q @ [j], q @ [Suc j])
           \<and> subtree (document ((click ^^ n) m)) (q @ [j]) = Some b'
           \<and> tag b' = ''button'' \<and> ident b' = ''menu-toggle''
           \<and> subtree (document ((click ^^ n) m)) (q @ [Suc j]) = Some l'"
proof (induction n)
  case 0
  show ?case using assms by simp
next
  case (Suc n)
  then obtain b' l' where
    c: "click_listener ((click ^^ n) m) = Some (q @ [j], q @ [Suc j])"
    and b: "subtree (document ((click ^^ n) m)) (q @ [j]) = Some b'"
    and t: "tag b' = ''button''" "ident b' = ''menu-toggle''"
    and l: "subtree (document ((click ^^ n) m)) (q @ [Suc j]) = Some l'"
    by blast
  show ?case
    using click_step [OF c b l] t by (simp add: set_innerText_def)
qed

text \<open>
  C10. The claim holds of a document whose \<open>ul\<close> is a child of the \<open>nav\<close>, and the code
  breaks it on a document whose \<open>ul\<close> is a deeper descendant: in
  \<open>html > body > nav > div > ul\<close> both queries find their element, so the guard
  \<open>nav && list\<close> passes, and \<open>nav.insertBefore(button, list)\<close> raises \<open>NotFoundError\<close>
  because the list is a child of the \<open>div\<close>, not of the \<open>nav\<close>. No button is inserted, no
  click handler is registered, and the exception leaves the handler of
  \<open>DOMContentLoaded\<close>.
\<close>

theorem C10_nested_list_raises_NotFoundError:
  "querySelector (Type_selector ''nav'')
      (Element ''html'' [] [] [] [Element ''body'' [] [] []
         [Element ''nav'' [] [] [] [Element ''div'' [] [] [] [Element ''ul'' [] [] [] []]]]])
     = Some [0, 0]
   \<and> querySelector (Descendant_selector ''nav'' ''ul'')
      (Element ''html'' [] [] [] [Element ''body'' [] [] []
         [Element ''nav'' [] [] [] [Element ''div'' [] [] [] [Element ''ul'' [] [] [] []]]]])
     = Some [0, 0, 0, 0]
   \<and> initMenu
      (Element ''html'' [] [] [] [Element ''body'' [] [] []
         [Element ''nav'' [] [] [] [Element ''div'' [] [] [] [Element ''ul'' [] [] [] []]]]])
     = Inl NotFoundError
   \<and> snd (onDOMContentLoaded
        \<lparr>getContext_ok = True, createShader_vs_ok = True, compile_status_vs = True,
           createShader_fs_ok = True, compile_status_fs = True, createProgram_ok = True,
           link_status = True, max_viewport_dims = (8192, 8192),
           max_drawing_buffer = (8192, 8192)\<rparr>
        0 (page0 800 600)
      (Element ''html'' [] [] [] [Element ''body'' [] [] []
         [Element ''nav'' [] [] [] [Element ''div'' [] [] [] [Element ''ul'' [] [] [] []]]]]))
     = Inl NotFoundError"
  by (simp add: initMenu_def querySelector_def insertBefore_def createElement_def
      set_id_def set_innerText_def onDOMContentLoaded_def)

text \<open>
  What \<open>initMenu\<close> and the click handler do on the other documents. If the document has
  no \<open>nav\<close> element or no \<open>ul\<close> inside a \<open>nav\<close>, \<open>initMenu\<close> returns the document
  unchanged, with no click handler and no exception. If the first \<open>nav\<close> and the first
  \<open>ul\<close> inside a \<open>nav\<close> exist and that \<open>ul\<close> is a child of that \<open>nav\<close>, then exactly one
  element with id \<open>menu-toggle\<close> is added, a button placed right before the list with the
  label \<open>> ABRIR COMANDOS\<close>, and each click toggles the class \<open>open\<close> of the list and sets
  the label to \<open>> CERRAR COMANDOS\<close> exactly when the class is present afterwards, and to
  \<open>> ABRIR COMANDOS\<close> otherwise.
\<close>

theorem menu_toggle_when_list_is_child:
  "(querySelector (Type_selector ''nav'') doc = None
      \<or> querySelector (Descendant_selector ''nav'' ''ul'') doc = None
     \<longrightarrow> initMenu doc = Inr \<lparr>document = doc, click_listener = None\<rparr>)
   \<and> (querySelector (Type_selector ''nav'') doc = Some navp
      \<and> querySelector (Descendant_selector ''nav'' ''ul'') doc = Some (navp @ [j])
     \<longrightarrow> (\<exists>m. initMenu doc = Inr m
           \<and> subtree (document m) (navp @ [j])
               = Some (Element ''button'' ''menu-toggle'' [] ''> ABRIR COMANDOS'' [])
           \<and> subtree (document m) (navp @ [Suc j]) = subtree doc (navp @ [j])
           \<and> count_id ''menu-toggle'' (document m) = Suc (count_id ''menu-toggle'' doc)
           \<and> (\<exists>l l' b'.
                 subtree (document ((click ^^ n) m)) (navp @ [Suc j]) = Some l
               \<and> subtree (document ((click ^^ Suc n) m)) (navp @ [Suc j]) = Some l'
               \<and> (''open'' \<in> set (classList l')) = (''open'' \<notin> set (classList l))
               \<and> subtree (document ((click ^^ Suc n) m)) (navp @ [j]) = Some b'
               \<and> tag b' = ''button'' \<and> ident b' = ''menu-toggle''
               \<and> innerText b' = (if ''open'' \<in> set (classList l')
                                  then ''> CERRAR COMANDOS'' else ''> ABRIR COMANDOS''))))"
proof (intro conjI impI)
  assume "querySelector (Type_selector ''nav'') doc = None
      \<or> querySelector (Descendant_selector ''nav'' ''ul'') doc = None"
  then show "initMenu doc = Inr \<lparr>document = doc, click_listener = None\<rparr>"
    by (rule initMenu_absent)
next
  assume h: "querySelector (Type_selector ''nav'') doc = Some navp
      \<and> querySelector (Descendant_selector ''nav'' ''ul'') doc = Some (navp @ [j])"
  define button where "button = Element ''button'' ''menu-toggle'' [] ''> ABRIR COMANDOS'' []"
  define m where "m = \<lparr>document = update_at navp (insert_child j button) doc,
                        click_listener = Some (navp @ [j], navp @ [Suc j])\<rparr>"
  have im: "initMenu doc = Inr m"
    using h by (simp add: initMenu_child m_def button_def)
  from h obtain l0 where l0: "subtree doc (navp @ [j]) = Some l0"
    using querySelector_valid [of "Descendant_selector ''nav'' ''ul''" doc "navp @ [j]"] by auto
  have pb: "subtree (document m) (navp @ [j]) = Some button"
    and pl: "subtree (document m) (navp @ [Suc j]) = Some l0"
    by (simp_all add: m_def inserted_positions [OF l0])
  have cnt: "count_id ''menu-toggle'' (document m) = Suc (count_id ''menu-toggle'' doc)"
    by (simp add: m_def inserted_count [OF l0] button_def)
  have cl: "click_listener m = Some (navp @ [j], navp @ [Suc j])"
    by (simp add: m_def)
  have bt: "tag button = ''button''" "ident button = ''menu-toggle''"
    by (simp_all add: button_def)
  from clicks_invariant [OF cl pb bt pl, of n] obtain b l where
    c: "click_listener ((click ^^ n) m) = Some (navp @ [j], navp @ [Suc j])"
    and b: "subtree (document ((click ^^ n) m)) (navp @ [j]) = Some b"
    and t: "tag b = ''button''" "ident b = ''menu-toggle''"
    and l: "subtree (document ((click ^^ n) m)) (navp @ [Suc j]) = Some l"
    by blast
  define l' where "l' = set_classList (toggle ''open'' (classList l)) l"
  define b' where "b' = set_innerText (if ''open'' \<notin> set (classList l)
                                  then ''> CERRAR COMANDOS'' else ''> ABRIR COMANDOS'') b"
  have sl: "subtree (document ((click ^^ Suc n) m)) (navp @ [Suc j]) = Some l'"
    and sb: "subtree (document ((click ^^ Suc n) m)) (navp @ [j]) = Some b'"
    using click_step [OF c b l] by (simp_all add: l'_def b'_def)
  have op: "(''open'' \<in> set (classList l')) = (''open'' \<notin> set (classList l))"
    by (simp add: l'_def set_classList_def toggle_open)
  have tb: "tag b' = ''button''" "ident b' = ''menu-toggle''"
    "innerText b' = (if ''open'' \<in> set (classList l')
                      then ''> CERRAR COMANDOS'' else ''> ABRIR COMANDOS'')"
    using t op by (simp_all add: b'_def set_innerText_def)
  have "\<exists>l l' b'.
           subtree (document ((click ^^ n) m)) (navp @ [Suc j]) = Some l
         \<and> subtree (document ((click ^^ Suc n) m)) (navp @ [Suc j]) = Some l'
         \<and> (''open'' \<in> set (classList l')) = (''open'' \<notin> set (classList l))
         \<and> subtree (document ((click ^^ Suc n) m)) (navp @ [j]) = Some b'
         \<and> tag b' = ''button'' \<and> ident b' = ''menu-toggle''
         \<and> innerText b' = (if ''open'' \<in> set (classList l')
                            then ''> CERRAR COMANDOS'' else ''> ABRIR COMANDOS'')"
    using l sl op sb tb by blast
  with im pb pl cnt l0 show "\<exists>m. initMenu doc = Inr m
           \<and> subtree (document m) (navp @ [j])
               = Some (Element ''button'' ''menu-toggle'' [] ''> ABRIR COMANDOS'' [])
           \<and> subtree (document m) (navp @ [Suc j]) = subtree doc (navp @ [j])
           \<and> count_id ''menu-toggle'' (document m) = Suc (count_id ''menu-toggle'' doc)
           \<and> (\<exists>l l' b'.
                 subtree (document ((click ^^ n) m)) (navp @ [Suc j]) = Some l
               \<and> subtree (document ((click ^^ Suc n) m)) (navp @ [Suc j]) = Some l'
               \<and> (''open'' \<in> set (classList l')) = (''open'' \<notin> set (classList l))
               \<and> subtree (document ((click ^^ Suc n) m)) (navp @ [j]) = Some b'
               \<and> tag b' = ''button'' \<and> ident b' = ''menu-toggle''
               \<and> innerText b' = (if ''open'' \<in> set (classList l')
                                  then ''> CERRAR COMANDOS'' else ''> ABRIR COMANDOS''))"
    unfolding button_def by (intro exI [of _ m]) simp
qed

theorem menu_toggle_example:
  "initMenu (Element ''html'' [] [] [] [Element ''body'' [] [] [] [Element ''main'' [] [] [] []]])
     = Inr \<lparr>document =
              Element ''html'' [] [] [] [Element ''body'' [] [] [] [Element ''main'' [] [] [] []]],
            click_listener = None\<rparr>
   \<and> (\<exists>m. initMenu (Element ''html'' [] [] [] [Element ''body'' [] [] []
             [Element ''nav'' [] [] [] [Element ''h1'' [] [] [] [], Element ''ul'' [] [] [] []]]])
           = Inr m
         \<and> subtree (document m) [0, 0, 1]
             = Some (Element ''button'' ''menu-toggle'' [] ''> ABRIR COMANDOS'' [])
         \<and> subtree (document m) [0, 0, Suc 1]
             = subtree (Element ''html'' [] [] [] [Element ''body'' [] [] []
                 [Element ''nav'' [] [] [] [Element ''h1'' [] [] [] [], Element ''ul'' [] [] [] []]]])
                 [0, 0, 1]
         \<and> count_id ''menu-toggle'' (document m)
             = Suc (count_id ''menu-toggle'' (Element ''html'' [] [] [] [Element ''body'' [] [] []
                 [Element ''nav'' [] [] [] [Element ''h1'' [] [] [] [], Element ''ul'' [] [] [] []]]]))
         \<and> (\<exists>l l' b'.
               subtree (document ((click ^^ 0) m)) [0, 0, Suc 1] = Some l
             \<and> subtree (document ((click ^^ Suc 0) m)) [0, 0, Suc 1] = Some l'
             \<and> (''open'' \<in> set (classList l')) = (''open'' \<notin> set (classList l))
             \<and> subtree (document ((click ^^ Suc 0) m)) [0, 0, 1] = Some b'
             \<and> tag b' = ''button'' \<and> ident b' = ''menu-toggle''
             \<and> innerText b' = (if ''open'' \<in> set (classList l')
                                then ''> CERRAR COMANDOS'' else ''> ABRIR COMANDOS'')))"
proof (rule conjI)
  have a: "querySelector (Type_selector ''nav'')
      (Element ''html'' [] [] [] [Element ''body'' [] [] [] [Element ''main'' [] [] [] []]]) = None"
    by (simp add: querySelector_def)
  from menu_toggle_when_list_is_child
        [of "Element ''html'' [] [] [] [Element ''body'' [] [] [] [Element ''main'' [] [] [] []]]"
            "[]" 0 0, THEN conjunct1, THEN mp, OF disjI1 [OF a]]
  show "initMenu (Element ''html'' [] [] [] [Element ''body'' [] [] [] [Element ''main'' [] [] [] []]])
     = Inr \<lparr>document =
              Element ''html'' [] [] [] [Element ''body'' [] [] [] [Element ''main'' [] [] [] []]],
            click_listener = None\<rparr>" .
next
  have b: "querySelector (Type_selector ''nav'')
      (Element ''html'' [] [] [] [Element ''body'' [] [] []
             [Element ''nav'' [] [] [] [Element ''h1'' [] [] [] [], Element ''ul'' [] [] [] []]]])
      = Some [0, 0]"
    by (simp add: querySelector_def)
  have c: "querySelector (Descendant_selector ''nav'' ''ul'')
      (Element ''html'' [] [] [] [Element ''body'' [] [] []
             [Element ''nav'' [] [] [] [Element ''h1'' [] [] [] [], Element ''ul'' [] [] [] []]]])
      = Some ([0, 0] @ [1])"
    by (simp add: querySelector_def)
  from menu_toggle_when_list_is_child
        [of "Element ''html'' [] [] [] [Element ''body'' [] [] []
             [Element ''nav'' [] [] [] [Element ''h1'' [] [] [] [], Element ''ul'' [] [] [] []]]]"
            "[0, 0]" 1 0, THEN conjunct2, THEN mp, OF conjI [OF b c], unfolded append.simps]
  show "\<exists>m. initMenu (Element ''html'' [] [] [] [Element ''body'' [] [] []
             [Element ''nav'' [] [] [] [Element ''h1'' [] [] [] [], Element ''ul'' [] [] [] []]]])
           = Inr m
         \<and> subtree (document m) [0, 0, 1]
             = Some (Element ''button'' ''menu-toggle'' [] ''> ABRIR COMANDOS'' [])
         \<and> subtree (document m) [0, 0, Suc 1]
             = subtree (Element ''html'' [] [] [] [Element ''body'' [] [] []
                 [Element ''nav'' [] [] [] [Element ''h1'' [] [] [] [], Element ''ul'' [] [] [] []]]])
                 [0, 0, 1]
         \<and> count_id ''menu-toggle'' (document m)
             = Suc (count_id ''menu-toggle'' (Element ''html'' [] [] [] [Element ''body'' [] [] []
                 [Element ''nav'' [] [] [] [Element ''h1'' [] [] [] [], Element ''ul'' [] [] [] []]]]))
         \<and> (\<exists>l l' b'.
               subtree (document ((click ^^ 0) m)) [0, 0, Suc 1] = Some l
             \<and> subtree (document ((click ^^ Suc 0) m)) [0, 0, Suc 1] = Some l'
             \<and> (''open'' \<in> set (classList l')) = (''open'' \<notin> set (classList l))
             \<and> subtree (document ((click ^^ Suc 0) m)) [0, 0, 1] = Some b'
             \<and> tag b' = ''button'' \<and> ident b' = ''menu-toggle''
             \<and> innerText b' = (if ''open'' \<in> set (classList l')
                                then ''> CERRAR COMANDOS'' else ''> ABRIR COMANDOS''))" .
qed

end
